theory Spec2Isabelle
  imports Complex_Main "HOL-Library.Log_Nat"
begin

section \<open>Machine integers and errors\<close>

text \<open>
  Go's \<^verbatim>\<open>int64\<close> (and \<^verbatim>\<open>int\<close> on a 64-bit platform) is modelled as \<^typ>\<open>int\<close> with
  the two's complement wrap-around written out: every addition of the source that can
  leave the 64-bit range is wrapped by \<open>wrap64\<close>.
\<close>

definition wrap64 :: "int \<Rightarrow> int" where
  "wrap64 x = (x + 2 ^ 63) mod 2 ^ 64 - 2 ^ 63"

text \<open>A Go \<^verbatim>\<open>error\<close> value; \<^verbatim>\<open>nil\<close> is \<open>None\<close> of \<open>error option\<close>.\<close>

datatype error = Error string

section \<open>Floating point: IEEE 754 binary64\<close>

text \<open>
  \<^verbatim>\<open>getNumberOfChunks\<close> computes in \<^verbatim>\<open>float64\<close>. A finite \<^verbatim>\<open>float64\<close> is modelled by
  the rational number it denotes. Converting an integer and dividing two floats both
  return the exact result rounded to the nearest number with a 53-bit significand, ties
  to the even significand (\<open>float64_round\<close>). The exponent range is left out: the
  quotients of two non-zero 64-bit integers lie between \<open>2^-63\<close> and \<open>2^63\<close>, far
  from overflow and from the subnormal numbers.
\<close>

definition pow2 :: "int \<Rightarrow> rat" where
  "pow2 e = (if 0 \<le> e then 2 ^ nat e else 1 / 2 ^ nat (- e))"

text \<open>\<open>ilog2 x\<close> is the binary exponent of \<open>x > 0\<close>: \<open>2 ^ ilog2 x \<le> x < 2 ^ (ilog2 x + 1)\<close>.\<close>

definition ilog2 :: "rat \<Rightarrow> int" where
  "ilog2 x = (if 1 \<le> x then bitlen \<lfloor>x\<rfloor> - 1 else - bitlen (\<lceil>1 / x\<rceil> - 1))"

definition round_half_even :: "rat \<Rightarrow> int" where
  "round_half_even m =
     (let f = \<lfloor>m\<rfloor>; r = m - of_int f
      in if r < 1 / 2 then f else if 1 / 2 < r then f + 1 else if even f then f else f + 1)"

definition float64_round :: "rat \<Rightarrow> rat" where
  "float64_round x =
     (if x = 0 then 0
      else let e = ilog2 \<bar>x\<bar> - 52
           in sgn x * of_int (round_half_even (\<bar>x\<bar> / pow2 e)) * pow2 e)"

text \<open>The conversion \<^verbatim>\<open>float64(n)\<close> of an \<^verbatim>\<open>int64\<close>.\<close>

definition float64_of_int64 :: "int \<Rightarrow> rat" where
  "float64_of_int64 n = float64_round (of_int n)"

section \<open>Range planning\<close>

definition KB :: int where
  "KB = 1024"

definition MB :: int where
  "MB = 1024 * KB"

definition PartSize :: int where
  "PartSize = 10 * MB"

subsection \<open>\<^verbatim>\<open>getNumberOfChunks\<close>\<close>

text \<open>
  \<^verbatim>\<open>int64(math.Ceil(float64(totalSize) / float64(partSize)))\<close>. \<^verbatim>\<open>math.Ceil\<close> of a
  finite float is exact. The result is \<open>None\<close> where Go leaves the conversion to
  \<^verbatim>\<open>int64\<close> implementation-dependent: the quotient is infinite or not a number
  (\<^verbatim>\<open>partSize = 0\<close>), or its ceiling is outside the 64-bit range.
\<close>

definition getNumberOfChunks :: "int \<Rightarrow> int \<Rightarrow> int option" where
  "getNumberOfChunks totalSize partSize =
     (if partSize = 0 then None
      else let q = float64_round (float64_of_int64 totalSize / float64_of_int64 partSize);
               c = \<lceil>q\<rceil>
           in if - (2 ^ 63) \<le> c \<and> c < 2 ^ 63 then Some c else None)"

subsection \<open>Upload: \<^verbatim>\<open>getParts\<close>\<close>

record part =
  ID :: int
  StartByte :: int
  EndByte :: int
  ETag :: string
  Error :: "error option"

text \<open>
  \<^verbatim>\<open>getParts\<close> sends the parts on a channel; the model returns them in the order sent.
  The loop \<^verbatim>\<open>for end < fileSize\<close> need not stop once \<^verbatim>\<open>start + partSize\<close> wraps
  around, so it is a partial function: \<open>None\<close> is a loop that runs forever.
\<close>

partial_function (option) getParts_loop ::
  "int \<Rightarrow> int \<Rightarrow> int \<Rightarrow> int \<Rightarrow> int \<Rightarrow> part list \<Rightarrow> part list option" where
  "getParts_loop fileSize partSize start endb count out =
     (if endb < fileSize then
        (let end1 = wrap64 (start + partSize);
             end2 = (if end1 > fileSize then fileSize else end1);
             p = \<lparr>ID = count, part.StartByte = start, part.EndByte = end2,
                  ETag = [], part.Error = None\<rparr>
         in getParts_loop fileSize partSize end2 end2 (wrap64 (count + 1)) (out @ [p]))
      else Some out)"

declare getParts_loop.simps [code]

definition getParts :: "int \<Rightarrow> int \<Rightarrow> part list option" where
  "getParts fileSize partSize = getParts_loop fileSize partSize 0 0 1 []"

text \<open>
  \<open>covers a ps b\<close>: the half-open ranges of \<open>ps\<close>, in order, are non-empty, start
  at \<open>a\<close>, each begins where the one before ends, and the last ends at \<open>b\<close>.
\<close>

fun covers :: "int \<Rightarrow> part list \<Rightarrow> int \<Rightarrow> bool" where
  "covers a [] b = (a = b)"
| "covers a (p # ps) b =
     (part.StartByte p = a \<and> a < part.EndByte p \<and> covers (part.EndByte p) ps b)"

subsection \<open>Download: \<^verbatim>\<open>generateChunks\<close>\<close>

record chunk =
  StartByte :: int
  EndByte :: int
  PartNumber :: int
  Error :: "error option"

text \<open>
  The counter \<^verbatim>\<open>i\<close> is only incremented below \<^verbatim>\<open>totalParts\<close>, so \<^verbatim>\<open>i++\<close> cannot
  wrap; \<^verbatim>\<open>end + 1\<close> and \<^verbatim>\<open>start + partSize + 1\<close> can. The first \<^verbatim>\<open>end\<close> is the
  constant \<^verbatim>\<open>PartSize - 1\<close>, not the parameter.
\<close>

function generateChunks_loop ::
  "int \<Rightarrow> int \<Rightarrow> int \<Rightarrow> int \<Rightarrow> int \<Rightarrow> int \<Rightarrow> chunk list" where
  "generateChunks_loop totalParts totalSize partSize i start endb =
     (if i < totalParts then
        \<lparr>chunk.StartByte = start, chunk.EndByte = endb, PartNumber = i, chunk.Error = None\<rparr>
        # (let start1 = wrap64 (endb + 1);
               end1 = wrap64 (wrap64 (start1 + partSize) + 1);
               end2 = (if end1 > totalSize then totalSize else end1)
           in generateChunks_loop totalParts totalSize partSize (i + 1) start1 end2)
      else [])"
  by pat_completeness auto
termination
  by (relation "measure (\<lambda>(totalParts, totalSize, partSize, i, start, endb). nat (totalParts - i))")
    auto

declare generateChunks_loop.simps [simp del]

definition generateChunks :: "int \<Rightarrow> int \<Rightarrow> int \<Rightarrow> chunk list" where
  "generateChunks totalParts totalSize partSize =
     generateChunks_loop totalParts totalSize partSize 0 0 (PartSize - 1)"

section \<open>Pagination and responses\<close>

subsection \<open>\<^verbatim>\<open>strconv.Atoi\<close> and \<^verbatim>\<open>strconv.ParseInt\<close>\<close>

text \<open>
  Go's standard parsers, base 10, for a 64-bit \<^verbatim>\<open>int\<close>. \<^verbatim>\<open>ParseUint\<close> reads the digits
  from the left: a character that is not a digit is a syntax error with value 0, and a
  value that leaves the unsigned 64-bit range is a range error with the largest value,
  whichever comes first. \<^verbatim>\<open>ParseInt\<close> takes one optional sign, and on a value outside
  the signed range returns the nearest bound together with a range error.
\<close>

datatype num_error = ErrSyntax | ErrRange

definition NumError :: "num_error \<Rightarrow> error" where
  "NumError e = (case e of ErrSyntax \<Rightarrow> error.Error ''invalid syntax''
                          | ErrRange \<Rightarrow> error.Error ''value out of range'')"

definition is_digit :: "char \<Rightarrow> bool" where
  "is_digit c = (48 \<le> (of_char c :: int) \<and> (of_char c :: int) \<le> 57)"

fun ParseUint_loop :: "int \<Rightarrow> string \<Rightarrow> int \<times> num_error option" where
  "ParseUint_loop n [] = (n, None)"
| "ParseUint_loop n (c # cs) =
     (if \<not> is_digit c then (0, Some ErrSyntax)
      else if n \<ge> (2 ^ 64 - 1) div 10 + 1 then (2 ^ 64 - 1, Some ErrRange)
      else let n1 = n * 10 + (of_char c - 48)
           in if n1 > 2 ^ 64 - 1 then (2 ^ 64 - 1, Some ErrRange)
              else ParseUint_loop n1 cs)"

definition ParseUint :: "string \<Rightarrow> int \<times> num_error option" where
  "ParseUint s = (if s = [] then (0, Some ErrSyntax) else ParseUint_loop 0 s)"

definition ParseInt :: "string \<Rightarrow> int \<times> error option" where
  "ParseInt s =
     (if s = [] then (0, Some (NumError ErrSyntax))
      else let neg = (hd s = CHR ''-'');
               s1 = (if hd s = CHR ''+'' \<or> hd s = CHR ''-'' then tl s else s)
           in case ParseUint s1 of
                (un, Some ErrSyntax) \<Rightarrow> (0, Some (NumError ErrSyntax))
              | (un, _) \<Rightarrow>
                  if \<not> neg \<and> un \<ge> 2 ^ 63 then (2 ^ 63 - 1, Some (NumError ErrRange))
                  else if neg \<and> un > 2 ^ 63 then (- (2 ^ 63), Some (NumError ErrRange))
                  else (if neg then - un else un, None))"

definition Atoi :: "string \<Rightarrow> int \<times> error option" where
  "Atoi s = ParseInt s"

subsection \<open>HTTP responses and headers\<close>

text \<open>
  \<^verbatim>\<open>http.Header\<close> maps a header name to its values. \<^verbatim>\<open>Header.Get\<close> returns the first
  value, or the empty string when the header is absent or has no value. Names are
  compared after canonicalisation, which the model leaves to the map.
\<close>

type_synonym Header = "string \<rightharpoonup> string list"

definition Header_Get :: "Header \<Rightarrow> string \<Rightarrow> string" where
  "Header_Get h k = (case h k of None \<Rightarrow> [] | Some [] \<Rightarrow> [] | Some (v # vs) \<Rightarrow> v)"

record http_Response =
  StatusCode :: int
  Header :: Header

definition headerRateLimit :: string where
  "headerRateLimit = ''X-RateLimit-Limit''"

definition headerRateRemaining :: string where
  "headerRateRemaining = ''X-RateLimit-Remaining''"

definition headerRateReset :: string where
  "headerRateReset = ''X-RateLimit-Reset''"

definition headerTotalMatchingQuery :: string where
  "headerTotalMatchingQuery = ''X-Total-Matching-Query''"

subsection \<open>\<^verbatim>\<open>pagination.go\<close>\<close>

record Link =
  Href :: string
  Rel :: string

text \<open>
  \<^verbatim>\<open>url.Parse\<close> followed by \<^verbatim>\<open>Query().Get\<close> belongs to Go's library and is a parameter
  \<open>url_query\<close>: \<open>None\<close> when \<^verbatim>\<open>url.Parse\<close> fails, otherwise the function from a
  field to its first value (empty when the field is missing). The error of
  \<^verbatim>\<open>strconv.Atoi\<close> is dropped, its value returned.
\<close>

definition intQueryField :: "(string \<Rightarrow> (string \<Rightarrow> string) option) \<Rightarrow> Link \<Rightarrow> string \<Rightarrow> int" where
  "intQueryField url_query l field =
     (case url_query (Href l) of
        None \<Rightarrow> 0
      | Some get \<Rightarrow> fst (Atoi (get field)))"

definition Link_Limit :: "(string \<Rightarrow> (string \<Rightarrow> string) option) \<Rightarrow> Link \<Rightarrow> int" where
  "Link_Limit url_query l = intQueryField url_query l ''limit''"

definition Link_Offset :: "(string \<Rightarrow> (string \<Rightarrow> string) option) \<Rightarrow> Link \<Rightarrow> int" where
  "Link_Offset url_query l = intQueryField url_query l ''offset''"

record ListOptions =
  Limit :: int
  Offset :: int
  Fields :: "string list"

text \<open>A \<^verbatim>\<open>*ListOptions\<close>: \<open>None\<close> is the nil pointer.\<close>

definition IsZero :: "ListOptions option \<Rightarrow> bool" where
  "IsZero lo = (case lo of None \<Rightarrow> True
     | Some o' \<Rightarrow> ListOptions.Limit o' = 0 \<and> ListOptions.Offset o' = 0)"

record Page =
  TotalMatchingQuery :: int
  Links :: "string \<rightharpoonup> Link"

text \<open>
  \<^verbatim>\<open>link.ParseResponse\<close> (an imported package) is the parameter \<open>parse_links\<close>, from
  the response to the URI of each relation of its \<^verbatim>\<open>Link\<close> headers.
\<close>

definition NewPage :: "(http_Response \<Rightarrow> (string \<rightharpoonup> string)) \<Rightarrow> http_Response \<Rightarrow> Page" where
  "NewPage parse_links resp =
     (let total = Header_Get (Header resp) headerTotalMatchingQuery;
          totalMatchingQuery = (if total \<noteq> [] then fst (Atoi total) else 0)
      in \<lparr>TotalMatchingQuery = totalMatchingQuery,
          Links = (\<lambda>rel. case parse_links resp rel of
                     None \<Rightarrow> None
                   | Some uri \<Rightarrow> Some \<lparr>Href = uri, Rel = rel\<rparr>)\<rparr>)"

text \<open>A \<^verbatim>\<open>*Page\<close>: \<open>None\<close> is the nil pointer. The result is never nil.\<close>

definition generateListOptions ::
  "(string \<Rightarrow> (string \<Rightarrow> string) option) \<Rightarrow> Page option \<Rightarrow> string \<Rightarrow> ListOptions option" where
  "generateListOptions url_query p rel =
     (case p of
        None \<Rightarrow> Some \<lparr>Limit = 0, Offset = 0, Fields = []\<rparr>
      | Some pg \<Rightarrow>
          (case Links pg rel of
             Some l \<Rightarrow> Some \<lparr>Limit = Link_Limit url_query l, Offset = Link_Offset url_query l,
                             Fields = []\<rparr>
           | None \<Rightarrow> Some \<lparr>Limit = 0, Offset = 0, Fields = []\<rparr>))"

definition NextPage :: "(string \<Rightarrow> (string \<Rightarrow> string) option) \<Rightarrow> Page option \<Rightarrow> ListOptions option" where
  "NextPage url_query p = generateListOptions url_query p ''next''"

definition PrevPage :: "(string \<Rightarrow> (string \<Rightarrow> string) option) \<Rightarrow> Page option \<Rightarrow> ListOptions option" where
  "PrevPage url_query p = generateListOptions url_query p ''prev''"

definition HasNextPage :: "(string \<Rightarrow> (string \<Rightarrow> string) option) \<Rightarrow> Page option \<Rightarrow> bool" where
  "HasNextPage url_query p = (\<not> IsZero (NextPage url_query p))"

definition HasPrevPage :: "(string \<Rightarrow> (string \<Rightarrow> string) option) \<Rightarrow> Page option \<Rightarrow> bool" where
  "HasPrevPage url_query p = (\<not> IsZero (PrevPage url_query p))"

subsection \<open>\<^verbatim>\<open>response.go\<close>\<close>

text \<open>
  \<open>Reset\<close> is \<open>None\<close> for the zero \<^verbatim>\<open>Timestamp\<close> and \<open>Some v\<close> for
  \<^verbatim>\<open>time.Unix(v, 0)\<close>.
\<close>

record Rate =
  Limit :: int
  Remaining :: int
  Reset :: "int option"

text \<open>
  The embedded \<^verbatim>\<open>*Page\<close> of a \<^verbatim>\<open>Response\<close> is set by \<^verbatim>\<open>NewPage\<close> and never nil; the
  embedded \<^verbatim>\<open>*Rate\<close> is nil (\<open>None\<close>) until \<^verbatim>\<open>getRateLimit\<close> has succeeded.
\<close>

record Response =
  Response :: http_Response
  Page :: Page
  Rate :: "Rate option"

definition getRateLimit :: "http_Response \<Rightarrow> Rate \<times> error option" where
  "getRateLimit resp =
     (let limit = Header_Get (Header resp) headerRateLimit;
          r1 = (if limit \<noteq> [] then Atoi limit else (0, None))
      in if snd r1 \<noteq> None
         then (\<lparr>Limit = fst r1, Remaining = 0, Reset = None\<rparr>, snd r1)
         else
           let remaining = Header_Get (Header resp) headerRateRemaining;
               r2 = (if remaining \<noteq> [] then Atoi remaining else (0, None))
           in if snd r2 \<noteq> None
              then (\<lparr>Limit = fst r1, Remaining = fst r2, Reset = None\<rparr>, snd r2)
              else
                let reset = Header_Get (Header resp) headerRateReset;
                    rs = (if reset \<noteq> []
                          then (let v = ParseInt reset
                                in if fst v \<noteq> 0 \<and> snd v = None then Some (fst v) else None)
                          else None)
                in (\<lparr>Limit = fst r1, Remaining = fst r2, Reset = rs\<rparr>, None))"

definition getTotalMatchingQuery :: "http_Response \<Rightarrow> int \<times> error option" where
  "getTotalMatchingQuery resp =
     (let totalMatchingQuery = Header_Get (Header resp) headerTotalMatchingQuery
      in if totalMatchingQuery \<noteq> [] then Atoi totalMatchingQuery else (0, None))"

text \<open>
  \<^verbatim>\<open>NewResponse\<close> returns a \<^verbatim>\<open>*Response\<close> (\<open>None\<close> would be nil) and an error.
\<close>

definition NewResponse ::
  "(http_Response \<Rightarrow> (string \<rightharpoonup> string)) \<Rightarrow> http_Response \<Rightarrow> Response option \<times> error option" where
  "NewResponse parse_links resp =
     (let r = \<lparr>Response = resp, Page = NewPage parse_links resp, Rate = None\<rparr>;
          rl = getRateLimit resp
      in if snd rl \<noteq> None then (Some r, snd rl)
         else
           let r1 = r\<lparr>Rate := Some (fst rl)\<rparr>;
               tm = getTotalMatchingQuery resp
           in if snd tm \<noteq> None then (Some r1, snd tm)
              else (Some (r1\<lparr>Page := (Page r1)\<lparr>TotalMatchingQuery := fst tm\<rparr>\<rparr>), None))"

text \<open>
  A header value that \<^verbatim>\<open>getRateLimit\<close> and \<^verbatim>\<open>getTotalMatchingQuery\<close> turn into an error:
  not empty, and refused by \<^verbatim>\<open>strconv.Atoi\<close>.
\<close>

definition rejected :: "string \<Rightarrow> bool" where
  "rejected s = (s \<noteq> [] \<and> snd (Atoi s) \<noteq> None)"

section \<open>The transfer engine\<close>

text \<open>
  The goroutines of \<^verbatim>\<open>Upload\<close> and \<^verbatim>\<open>Download\<close> are modelled by one sequential
  schedule: the generator has filled the work queue, one worker at a time takes the
  range at the head of the queue and runs the loop body on it, and the monitoring
  goroutine handles every range at the moment it is published. The outside world is an
  oracle: the result of each file-system and network operation is given, the operations
  performed are recorded in a trace. The run is followed until \<^verbatim>\<open>wg.Wait\<close> returns.
\<close>

datatype event =
    NetUploadInit
  | NetPartUploadInit int
  | FsOpenSource
  | NetPartUpload int
  | NetPartReport int string
  | NetUploadComplete
  | NetDownloadInfo
  | NetSizeProbe
  | FsOpenDest
  | NetRangeGet int int
  | PublishPart part
  | PublishChunk chunk

text \<open>
  What \<^verbatim>\<open>service.Do\<close> returns: a response and no error; no response (nil) and the
  error of the exchange; or a response together with the error of \<^verbatim>\<open>NewResponse\<close>.
  The argument is what the caller reads from the response.
\<close>

datatype 'a do_result = DoOk 'a | DoErr error | DoErrResp 'a error

definition do_err :: "'a do_result \<Rightarrow> error option" where
  "do_err r = (case r of DoOk x \<Rightarrow> None | DoErr e \<Rightarrow> Some e | DoErrResp x e \<Rightarrow> Some e)"

datatype ending = WaitReturned | Panicked | Blocked | OutOfFuel

datatype outcome = Returned "error option" | Panic | Hang | NoFuel | Unspecified

definition intMin :: "int \<Rightarrow> int \<Rightarrow> int" where
  "intMin a b = (if a < b then a else b)"

text \<open>The loop \<^verbatim>\<open>for i := 0; i < n; i++ { go worker }\<close>: the number of workers started.\<close>

function spawn_workers :: "int \<Rightarrow> int \<Rightarrow> nat" where
  "spawn_workers i n = (if i < n then Suc (spawn_workers (i + 1) n) else 0)"
  by pat_completeness auto
termination
  by (relation "measure (\<lambda>(i, n). nat (n - i))") auto

declare spawn_workers.simps [simp del]

subsection \<open>Upload\<close>

text \<open>
  The channels of \<^verbatim>\<open>Upload\<close> carry \<^verbatim>\<open>*part\<close>: a part is shared between the worker and
  the monitoring goroutine. \<open>store\<close> maps an address to the part it holds, the queue
  holds addresses, \<open>wg\<close> is the counter of the \<^verbatim>\<open>WaitGroup\<close>.
\<close>

record ustate =
  store :: "nat \<Rightarrow> part"
  parts_q :: "nat list"
  wg :: int
  trace :: "event list"

text \<open>The monitoring goroutine of \<^verbatim>\<open>Upload\<close>, on one part received from \<^verbatim>\<open>report\<close>.\<close>

definition upload_monitor :: "nat \<Rightarrow> ustate \<Rightarrow> ustate" where
  "upload_monitor p st =
     (if part.Error (store st p) \<noteq> None
      then st\<lparr>store := (store st)(p := (store st p)\<lparr>part.Error := None\<rparr>),
              parts_q := parts_q st @ [p]\<rparr>
      else st\<lparr>wg := wg st - 1\<rparr>)"

text \<open>\<^verbatim>\<open>report <- p\<close>: the part as it is when sent is recorded, then handled.\<close>

definition publish :: "nat \<Rightarrow> ustate \<Rightarrow> ustate" where
  "publish p st = upload_monitor p (st\<lparr>trace := trace st @ [PublishPart (store st p)]\<rparr>)"

definition log_event :: "event \<Rightarrow> ustate \<Rightarrow> ustate" where
  "log_event e st = st\<lparr>trace := trace st @ [e]\<rparr>"

definition set_Error :: "nat \<Rightarrow> error \<Rightarrow> ustate \<Rightarrow> ustate" where
  "set_Error p e st = st\<lparr>store := (store st)(p := (store st p)\<lparr>part.Error := Some e\<rparr>)\<rparr>"

definition set_ETag :: "nat \<Rightarrow> string \<Rightarrow> ustate \<Rightarrow> ustate" where
  "set_ETag p t st = st\<lparr>store := (store st)(p := (store st p)\<lparr>ETag := t\<rparr>)\<rparr>"

text \<open>
  The results of the operations of one pass of the loop of \<^verbatim>\<open>processPart\<close>: the
  exchange of \<^verbatim>\<open>partUploadInit\<close>, \<^verbatim>\<open>os.Open\<close> and the exchange of \<^verbatim>\<open>partUpload\<close> (with
  the \<^verbatim>\<open>ETag\<close> header of the response), the exchange of \<^verbatim>\<open>partReportUploaded\<close>.
\<close>

record attempt =
  negotiate :: "unit do_result"
  open_source :: "error option"
  transfer :: "string do_result"
  acknowledge :: "unit do_result"

text \<open>\<^verbatim>\<open>partUpload\<close>: the error returned, and the state.\<close>

definition partUpload :: "attempt \<Rightarrow> nat \<Rightarrow> ustate \<Rightarrow> error option \<times> ustate" where
  "partUpload a p st =
     (let st1 = log_event FsOpenSource st
      in case open_source a of
           Some e \<Rightarrow> (Some e, st1)
         | None \<Rightarrow>
             (let st2 = log_event (NetPartUpload (ID (store st1 p))) st1
              in case transfer a of
                   DoOk etag \<Rightarrow> (None, set_ETag p etag st2)
                 | DoErr e \<Rightarrow> (Some e, st2)
                 | DoErrResp etag e \<Rightarrow> (Some e, st2)))"

text \<open>
  \<^verbatim>\<open>partReportUploaded\<close> prints \<^verbatim>\<open>resp.StatusCode\<close> before it returns: with a nil
  response this is a nil dereference (\<open>None\<close>).
\<close>

definition partReportUploaded :: "attempt \<Rightarrow> nat \<Rightarrow> ustate \<Rightarrow> error option option \<times> ustate" where
  "partReportUploaded a p st =
     (let st1 = log_event (NetPartReport (ID (store st p)) (ETag (store st p))) st
      in case acknowledge a of
           DoOk u \<Rightarrow> (Some None, st1)
         | DoErr e \<Rightarrow> (None, st1)
         | DoErrResp u e \<Rightarrow> (Some (Some e), st1))"

text \<open>
  One pass of the loop of \<^verbatim>\<open>processPart\<close> on the part at address \<open>p\<close>. The flag is
  true when the pass panics. No error branch leaves the pass: each is followed by the
  next step, and the pass ends with one more \<^verbatim>\<open>report <- p\<close>.
\<close>

definition processPart_body :: "attempt \<Rightarrow> nat \<Rightarrow> ustate \<Rightarrow> ustate \<times> bool" where
  "processPart_body a p st =
     (let st1 = log_event (NetPartUploadInit (ID (store st p))) st;
          st2 = (case do_err (negotiate a) of
                   Some e \<Rightarrow> publish p (set_Error p e st1)
                 | None \<Rightarrow> st1);
          u = partUpload a p st2;
          st3 = (case fst u of
                   Some e \<Rightarrow> publish p (set_Error p e (snd u))
                 | None \<Rightarrow> snd u);
          r = partReportUploaded a p st3
      in case fst r of
           None \<Rightarrow> (snd r, True)
         | Some err \<Rightarrow>
             (let st4 = (case err of
                           Some e \<Rightarrow> publish p (set_Error p e (snd r))
                         | None \<Rightarrow> snd r)
              in (publish p st4, False)))"

text \<open>
  The run of the workers until \<^verbatim>\<open>wg.Wait\<close> returns. \<open>att k\<close> gives the results of the
  \<open>k\<close>-th pass. A counter below zero is the panic of \<^verbatim>\<open>wg.Done\<close>; an empty queue (or
  no worker) with a positive counter blocks for ever.
\<close>

fun upload_run :: "nat \<Rightarrow> (nat \<Rightarrow> attempt) \<Rightarrow> nat \<Rightarrow> nat \<Rightarrow> ustate \<Rightarrow> ustate \<times> ending" where
  "upload_run 0 att nw k st = (st, OutOfFuel)"
| "upload_run (Suc fuel) att nw k st =
     (if wg st = 0 then (st, WaitReturned)
      else if wg st < 0 then (st, Panicked)
      else case parts_q st of
             [] \<Rightarrow> (st, Blocked)
           | p # q \<Rightarrow>
               if nw = 0 then (st, Blocked)
               else (case processPart_body (att k) p (st\<lparr>parts_q := q\<rparr>) of
                       (st1, True) \<Rightarrow> (st1, Panicked)
                     | (st1, False) \<Rightarrow> upload_run fuel att nw (Suc k) st1))"

text \<open>
  The world of one call of \<^verbatim>\<open>Upload\<close>: the result of \<^verbatim>\<open>os.Stat\<close> (an error or the
  size), of the exchange of \<^verbatim>\<open>initUpload\<close> (with the part size of the response), of
  each pass of a worker, and of the exchange of \<^verbatim>\<open>uploadFinalize\<close>.
\<close>

record upload_world =
  os_Stat :: "error + int"
  init_upload :: "int do_result"
  attempts :: "nat \<Rightarrow> attempt"
  finalize :: "unit do_result"

record upload_result =
  returned :: outcome
  calls :: "event list"
  workers :: nat

definition zero_part :: part where
  "zero_part = \<lparr>ID = 0, part.StartByte = 0, part.EndByte = 0, ETag = [], part.Error = None\<rparr>"

definition store_of :: "part list \<Rightarrow> nat \<Rightarrow> part" where
  "store_of ps i = (if i < length ps then ps ! i else zero_part)"

text \<open>
  \<^verbatim>\<open>Upload\<close>: what it returns, the operations performed and the number of workers
  started. A negative \<open>totalParts\<close> is the panic of \<^verbatim>\<open>make(chan *part, n)\<close>. The run is
  not followed (\<open>Unspecified\<close>) when the conversion in \<^verbatim>\<open>getNumberOfChunks\<close> is left to
  the implementation, or when the loop of \<^verbatim>\<open>getParts\<close> does not end.
\<close>

definition Upload :: "nat \<Rightarrow> upload_world \<Rightarrow> upload_result" where
  "Upload fuel w =
     (case os_Stat w of
        Inl err \<Rightarrow> \<lparr>returned = Returned (Some err), calls = [], workers = 0\<rparr>
      | Inr fsize \<Rightarrow>
          (case init_upload w of
             DoErr err \<Rightarrow>
               \<lparr>returned = Returned (Some err), calls = [NetUploadInit], workers = 0\<rparr>
           | DoErrResp ps err \<Rightarrow>
               \<lparr>returned = Returned (Some err), calls = [NetUploadInit], workers = 0\<rparr>
           | DoOk partSize \<Rightarrow>
               (case getNumberOfChunks fsize partSize of
                  None \<Rightarrow> \<lparr>returned = Unspecified, calls = [NetUploadInit], workers = 0\<rparr>
                | Some totalParts \<Rightarrow>
                    if totalParts < 0
                    then \<lparr>returned = Panic, calls = [NetUploadInit], workers = 0\<rparr>
                    else
                      (case getParts fsize partSize of
                         None \<Rightarrow> \<lparr>returned = Unspecified, calls = [NetUploadInit],
                                   workers = spawn_workers 0 (intMin totalParts 8)\<rparr>
                       | Some ps \<Rightarrow>
                           (let n = spawn_workers 0 (intMin totalParts 8);
                                st = \<lparr>store = store_of ps, parts_q = [0..<length ps],
                                      wg = totalParts, trace = [NetUploadInit]\<rparr>;
                                run = upload_run fuel (attempts w) n 0 st
                            in case snd run of
                                 WaitReturned \<Rightarrow>
                                   \<lparr>returned = Returned (do_err (finalize w)),
                                    calls = trace (fst run) @ [NetUploadComplete], workers = n\<rparr>
                               | Panicked \<Rightarrow>
                                   \<lparr>returned = Panic, calls = trace (fst run), workers = n\<rparr>
                               | Blocked \<Rightarrow>
                                   \<lparr>returned = Hang, calls = trace (fst run), workers = n\<rparr>
                               | OutOfFuel \<Rightarrow>
                                   \<lparr>returned = NoFuel, calls = trace (fst run), workers = n\<rparr>)))))"

subsection \<open>Download\<close>

text \<open>The channels of \<^verbatim>\<open>Download\<close> carry \<^verbatim>\<open>chunk\<close> values, copied when sent.\<close>

record dstate =
  chunks_q :: "chunk list"
  dwg :: int
  dtrace :: "event list"
  dst_exists :: bool

text \<open>
  The monitoring goroutine of \<^verbatim>\<open>Download\<close>, on one chunk received from \<^verbatim>\<open>report\<close>:
  its \<^verbatim>\<open>else\<close> branch is empty.
\<close>

definition download_monitor :: "chunk \<Rightarrow> dstate \<Rightarrow> dstate" where
  "download_monitor c st =
     (if chunk.Error c \<noteq> None
      then st\<lparr>chunks_q := chunks_q st @ [c\<lparr>chunk.Error := None\<rparr>]\<rparr>
      else st)"

definition publish_chunk :: "chunk \<Rightarrow> dstate \<Rightarrow> dstate" where
  "publish_chunk c st = download_monitor c (st\<lparr>dtrace := dtrace st @ [PublishChunk c]\<rparr>)"

text \<open>
  The results of one pass of the loop of \<^verbatim>\<open>downloadChunk\<close>: \<^verbatim>\<open>os.OpenFile\<close> with
  \<^verbatim>\<open>O_CREATE\<close>, and the ranged GET.
\<close>

record fetch =
  open_dest :: "error option"
  range_get :: "unit do_result"

text \<open>
  One pass of the loop of \<^verbatim>\<open>downloadChunk\<close>. The file is opened, and created when it
  is missing, in every pass. A failed open publishes and goes on to the next chunk; a
  failed GET publishes too, and then \<^verbatim>\<open>wg.Done()\<close> is called as after a success.
\<close>

definition downloadChunk_body :: "fetch \<Rightarrow> chunk \<Rightarrow> dstate \<Rightarrow> dstate" where
  "downloadChunk_body a c st =
     (let st1 = st\<lparr>dtrace := dtrace st @ [FsOpenDest]\<rparr>
      in case open_dest a of
           Some e \<Rightarrow> publish_chunk (c\<lparr>chunk.Error := Some e\<rparr>) st1
         | None \<Rightarrow>
             (let st2 = st1\<lparr>dst_exists := True,
                          dtrace := dtrace st1 @ [NetRangeGet (chunk.StartByte c) (chunk.EndByte c)]\<rparr>;
                  c1 = (case do_err (range_get a) of
                          Some e \<Rightarrow> c\<lparr>chunk.Error := Some e\<rparr>
                        | None \<Rightarrow> c);
                  st3 = publish_chunk c1 st2
              in st3\<lparr>dwg := dwg st3 - 1\<rparr>))"

fun download_run :: "nat \<Rightarrow> (nat \<Rightarrow> fetch) \<Rightarrow> nat \<Rightarrow> nat \<Rightarrow> dstate \<Rightarrow> dstate \<times> ending" where
  "download_run 0 att nw k st = (st, OutOfFuel)"
| "download_run (Suc fuel) att nw k st =
     (if dwg st = 0 then (st, WaitReturned)
      else if dwg st < 0 then (st, Panicked)
      else case chunks_q st of
             [] \<Rightarrow> (st, Blocked)
           | c # q \<Rightarrow>
               if nw = 0 then (st, Blocked)
               else download_run fuel att nw (Suc k)
                      (downloadChunk_body (att k) c (st\<lparr>chunks_q := q\<rparr>)))"

text \<open>
  The world of one call of \<^verbatim>\<open>Download\<close>: the exchange of \<^verbatim>\<open>Info\<close>; the result of
  \<^verbatim>\<open>http.Get\<close> in \<^verbatim>\<open>fileSize\<close> (an error, or the values of the \<^verbatim>\<open>Content-Length\<close>
  header); each pass of a worker; whether the destination exists before the call.
\<close>

record download_world =
  download_info :: "string do_result"
  size_probe :: "error + string list"
  fetches :: "nat \<Rightarrow> fetch"
  dest_before :: bool

record download_result =
  dreturned :: outcome
  dcalls :: "event list"
  dworkers :: nat
  planned :: "chunk list"
  dest_after :: bool

text \<open>
  \<^verbatim>\<open>fileSize\<close> panics when \<^verbatim>\<open>http.Get\<close> fails or the header is missing, and drops
  the error of \<^verbatim>\<open>strconv.ParseInt\<close>.
\<close>

definition fileSize :: "error + string list \<Rightarrow> int option" where
  "fileSize r = (case r of Inl e \<Rightarrow> None | Inr [] \<Rightarrow> None | Inr (v # vs) \<Rightarrow> Some (fst (ParseInt v)))"

definition Download :: "nat \<Rightarrow> download_world \<Rightarrow> download_result" where
  "Download fuel w =
     (case do_err (download_info w) of
        Some err \<Rightarrow> \<lparr>dreturned = Returned (Some err), dcalls = [NetDownloadInfo], dworkers = 0,
                     planned = [], dest_after = dest_before w\<rparr>
      | None \<Rightarrow>
          (case fileSize (size_probe w) of
             None \<Rightarrow> \<lparr>dreturned = Panic, dcalls = [NetDownloadInfo, NetSizeProbe], dworkers = 0,
                       planned = [], dest_after = dest_before w\<rparr>
           | Some fsize \<Rightarrow>
               (case getNumberOfChunks fsize PartSize of
                  None \<Rightarrow> \<lparr>dreturned = Unspecified, dcalls = [NetDownloadInfo, NetSizeProbe],
                            dworkers = 0, planned = [], dest_after = dest_before w\<rparr>
                | Some totalChunks \<Rightarrow>
                    if totalChunks < 0
                    then \<lparr>dreturned = Panic, dcalls = [NetDownloadInfo, NetSizeProbe],
                           dworkers = 0, planned = [], dest_after = dest_before w\<rparr>
                    else
                      (let cs = generateChunks totalChunks fsize PartSize;
                           n = spawn_workers 0 16;
                           st = \<lparr>chunks_q = cs, dwg = totalChunks,
                                 dtrace = [NetDownloadInfo, NetSizeProbe],
                                 dst_exists = dest_before w\<rparr>;
                           run = download_run fuel (fetches w) n 0 st
                       in \<lparr>dreturned = (case snd run of
                                          WaitReturned \<Rightarrow> Returned None
                                        | Panicked \<Rightarrow> Panic
                                        | Blocked \<Rightarrow> Hang
                                        | OutOfFuel \<Rightarrow> NoFuel),
                           dcalls = dtrace (fst run), dworkers = n, planned = cs,
                           dest_after = dst_exists (fst run)\<rparr>))))"

section \<open>Properties of the floating-point model\<close>

lemma pow2_powi: "pow2 e = 2 powi e"
  by (simp add: pow2_def power_int_def inverse_eq_divide power_one_over)

lemma pow2_pos: "0 < pow2 e"
  by (simp add: pow2_powi)

lemma pow2_add: "pow2 (a + b) = pow2 a * pow2 b"
  by (simp add: pow2_powi power_int_add)

lemma pow2_mono: "a \<le> b \<Longrightarrow> pow2 a \<le> pow2 b"
  by (simp add: pow2_powi power_int_increasing)

lemma pow2_strict_mono: "a < b \<Longrightarrow> pow2 a < pow2 b"
  by (simp add: pow2_powi power_int_strict_increasing)

lemma pow2_less_cancel: "pow2 a < pow2 b \<Longrightarrow> a < b"
  using pow2_mono[of b a] by (cases "a < b") auto

lemma pow2_nat: "0 \<le> e \<Longrightarrow> pow2 e = 2 ^ nat e"
  by (simp add: pow2_def)

lemma ilog2_bounds:
  assumes "0 < x"
  shows "pow2 (ilog2 x) \<le> x" and "x < pow2 (ilog2 x + 1)"
proof -
  have "pow2 (ilog2 x) \<le> x \<and> x < pow2 (ilog2 x + 1)"
  proof (cases "1 \<le> x")
    case True
    define n where "n = \<lfloor>x\<rfloor>"
    have n: "1 \<le> n" "of_int n \<le> x" "x < of_int (n + 1)"
      using True floor_correct[of x] by (simp_all add: n_def le_floor_iff)
    have bl: "1 \<le> bitlen n" using n(1) bitlen_eq_zero_iff[of n] bitlen_nonneg[of n] by linarith
    have b: "2 ^ nat (bitlen n - 1) \<le> n" "n < 2 ^ nat (bitlen n)"
      using bitlen_bounds[of n] n(1) by auto
    have il: "ilog2 x = bitlen n - 1" using True by (simp add: ilog2_def n_def)
    have "pow2 (ilog2 x) = of_int (2 ^ nat (bitlen n - 1))"
      using bl by (simp add: il pow2_nat)
    also have "\<dots> \<le> of_int n" using b(1) by (simp only: of_int_le_iff)
    finally have lo: "pow2 (ilog2 x) \<le> x" using n(2) by linarith
    have "n + 1 \<le> 2 ^ nat (bitlen n)" using b(2) by simp
    then have "(of_int (n + 1) :: rat) \<le> of_int (2 ^ nat (bitlen n))"
      by (simp only: of_int_le_iff)
    also have "\<dots> = pow2 (ilog2 x + 1)" using bl by (simp add: il pow2_nat)
    finally show ?thesis using lo n(3) by linarith
  next
    case False
    define c where "c = \<lceil>1 / x\<rceil>"
    define L where "L = bitlen (c - 1)"
    have y: "1 < 1 / x" using False assms by simp
    have c: "of_int (c - 1) < 1 / x" "1 / x \<le> of_int c" "1 \<le> c - 1"
      using y ceiling_correct[of "1 / x"] by (simp_all add: c_def less_ceiling_iff)
    have bl: "1 \<le> L" using c(3) bitlen_eq_zero_iff[of "c - 1"] bitlen_nonneg[of "c - 1"]
      unfolding L_def by linarith
    have b: "2 ^ nat (L - 1) \<le> c - 1" "c - 1 < 2 ^ nat L"
      using bitlen_bounds[of "c - 1"] c(3) unfolding L_def by auto
    have il: "ilog2 x = - L" using False by (simp add: ilog2_def c_def L_def)
    have p1: "pow2 (ilog2 x) = 1 / 2 ^ nat L" using bl by (simp add: il pow2_def)
    have p2: "pow2 (ilog2 x + 1) = 1 / 2 ^ nat (L - 1)"
      using bl by (auto simp add: il pow2_def) 
    have "c \<le> 2 ^ nat L" using b(2) by simp
    then have "(of_int c :: rat) \<le> of_int (2 ^ nat L)" by (simp only: of_int_le_iff)
    also have "\<dots> = 2 ^ nat L" by simp
    finally have "1 / x \<le> 2 ^ nat L" using c(2) by linarith
    then have lo: "1 / 2 ^ nat L \<le> x"
      using assms by (simp add: field_simps)
    have "(of_int (2 ^ nat (L - 1)) :: rat) \<le> of_int (c - 1)"
      using b(1) by (simp only: of_int_le_iff)
    moreover have "(of_int (2 ^ nat (L - 1)) :: rat) = 2 ^ nat (L - 1)" by simp
    ultimately have "2 ^ nat (L - 1) < 1 / x" using c(1) by linarith
    then have hi: "x < 1 / 2 ^ nat (L - 1)"
      using assms by (simp add: field_simps)
    show ?thesis using lo hi p1 p2 by simp
  qed
  then show "pow2 (ilog2 x) \<le> x" and "x < pow2 (ilog2 x + 1)" by simp_all
qed

lemma ilog2_less: "0 < x \<Longrightarrow> x < pow2 k \<Longrightarrow> ilog2 x < k"
  using ilog2_bounds(1)[of x] pow2_less_cancel[of "ilog2 x" k] by linarith

lemma ilog2_ge: "0 < x \<Longrightarrow> pow2 k \<le> x \<Longrightarrow> k \<le> ilog2 x"
  using ilog2_bounds(2)[of x] pow2_less_cancel[of k "ilog2 x + 1"] by linarith

lemma round_half_even_bounds:
  "\<lfloor>m\<rfloor> \<le> round_half_even m" "round_half_even m \<le> \<lceil>m\<rceil>"
proof -
  show "\<lfloor>m\<rfloor> \<le> round_half_even m" by (simp add: round_half_even_def Let_def)
  show "round_half_even m \<le> \<lceil>m\<rceil>"
  proof (cases "m = of_int \<lfloor>m\<rfloor>")
    case True
    then show ?thesis by (simp add: round_half_even_def Let_def)
  next
    case False
    then have "\<lceil>m\<rceil> = \<lfloor>m\<rfloor> + 1"
      by (metis ceiling_altdef)
    then show ?thesis by (simp add: round_half_even_def Let_def)
  qed
qed

lemma round_half_even_of_int: "round_half_even (of_int k) = k"
  by (simp add: round_half_even_def)

lemma round_half_even_up: "1 / 2 < m - of_int \<lfloor>m\<rfloor> \<Longrightarrow> round_half_even m = \<lfloor>m\<rfloor> + 1"
  by (simp add: round_half_even_def Let_def)


lemma pow2_numerals: "pow2 0 = 1" "pow2 52 = 2 ^ 52" "pow2 53 = 2 ^ 53"
  by (simp_all add: pow2_def)

lemma pow2_mantissa:
  "pow2 k = pow2 (k - 52) * 2 ^ 52" "pow2 (k + 1) = pow2 (k - 52) * 2 ^ 53"
proof -
  have "k = (k - 52) + 52" "k + 1 = (k - 52) + 53" by simp_all
  then have "pow2 k = pow2 (k - 52) * pow2 52" "pow2 (k + 1) = pow2 (k - 52) * pow2 53"
    by (metis pow2_add)+
  then show "pow2 k = pow2 (k - 52) * 2 ^ 52" "pow2 (k + 1) = pow2 (k - 52) * 2 ^ 53"
    by (simp_all only: pow2_numerals)
qed

lemma float64_round_pos:
  "0 < x \<Longrightarrow> float64_round x
     = of_int (round_half_even (x / pow2 (ilog2 x - 52))) * pow2 (ilog2 x - 52)"
  by (simp add: float64_round_def Let_def)

lemma mantissa_bounds:
  assumes "0 < x"
  shows "2 ^ 52 \<le> x / pow2 (ilog2 x - 52)" and "x / pow2 (ilog2 x - 52) < 2 ^ 53"
proof -
  let ?P = "pow2 (ilog2 x - 52)"
  have P: "0 < ?P" by (rule pow2_pos)
  have "?P * 2 ^ 52 \<le> x"
    using ilog2_bounds(1)[OF assms] pow2_mantissa(1)[of "ilog2 x"] by simp
  then show "2 ^ 52 \<le> x / ?P" using P by (simp add: pos_le_divide_eq mult.commute)
  have "x < ?P * 2 ^ 53"
    using ilog2_bounds(2)[OF assms] pow2_mantissa(2)[of "ilog2 x"] by simp
  then show "x / ?P < 2 ^ 53" using P by (simp add: pos_divide_less_eq mult.commute)
qed

lemma float64_round_bounds:
  assumes "0 < x"
  shows "pow2 (ilog2 x) \<le> float64_round x" and "float64_round x \<le> pow2 (ilog2 x + 1)"
proof -
  let ?P = "pow2 (ilog2 x - 52)"
  let ?m = "x / ?P"
  let ?R = "round_half_even ?m"
  have P: "0 < ?P" by (rule pow2_pos)
  have "(2 ^ 52 :: int) \<le> \<lfloor>?m\<rfloor>"
    using mantissa_bounds(1)[OF assms] by (simp add: le_floor_iff)
  then have "2 ^ 52 \<le> ?R" using round_half_even_bounds(1)[of ?m] by linarith
  then have "(of_int (2 ^ 52) :: rat) \<le> of_int ?R" by (simp only: of_int_le_iff)
  then have "2 ^ 52 * ?P \<le> of_int ?R * ?P" using P by simp
  moreover have "pow2 (ilog2 x) = 2 ^ 52 * ?P"
    using pow2_mantissa(1)[of "ilog2 x"] by (simp only: mult.commute)
  ultimately show "pow2 (ilog2 x) \<le> float64_round x"
    using assms by (simp add: float64_round_pos)
  have "\<lceil>?m\<rceil> \<le> (2 ^ 53 :: int)"
    using mantissa_bounds(2)[OF assms] by (simp add: ceiling_le_iff)
  then have "?R \<le> 2 ^ 53" using round_half_even_bounds(2)[of ?m] by linarith
  then have "(of_int ?R :: rat) \<le> of_int (2 ^ 53)" by (simp only: of_int_le_iff)
  then have "of_int ?R * ?P \<le> 2 ^ 53 * ?P" using P by simp
  moreover have "pow2 (ilog2 x + 1) = 2 ^ 53 * ?P"
    using pow2_mantissa(2)[of "ilog2 x"] by (simp only: mult.commute)
  ultimately show "float64_round x \<le> pow2 (ilog2 x + 1)"
    using assms by (simp add: float64_round_pos)
qed

lemma ceiling_float64_round_small:
  assumes "0 < q" "q < 1"
  shows "\<lceil>float64_round q\<rceil> = 1"
proof -
  have "ilog2 q < 0" using assms by (intro ilog2_less) (simp_all add: pow2_def)
  then have "pow2 (ilog2 q + 1) \<le> pow2 0" by (intro pow2_mono) simp
  then have "float64_round q \<le> 1"
    using float64_round_bounds(2)[OF assms(1)] by (simp add: pow2_def)
  moreover have "0 < float64_round q"
    using float64_round_bounds(1)[OF assms(1)] pow2_pos[of "ilog2 q"] by linarith
  ultimately show ?thesis by (intro ceiling_unique) simp_all
qed

lemma float64_round_exact_int:
  assumes "0 < n" "n < 2 ^ 53"
  shows "float64_round (of_int n) = of_int n"
proof -
  let ?x = "of_int n :: rat"
  have x: "0 < ?x" using assms by simp
  have "pow2 0 \<le> ?x" using assms by (simp add: pow2_def)
  then have k0: "0 \<le> ilog2 ?x" using x by (intro ilog2_ge)
  have "?x < of_int (2 ^ 53)" using assms(2) by (simp only: of_int_less_iff)
  then have "?x < pow2 53" by (simp add: pow2_def)
  then have k1: "ilog2 ?x < 53" using x by (intro ilog2_less)
  define d where "d = nat (52 - ilog2 ?x)"
  have P: "pow2 (ilog2 ?x - 52) = 1 / 2 ^ d"
    using k1 by (cases "ilog2 ?x = 52") (simp_all add: pow2_def d_def)
  have "?x / pow2 (ilog2 ?x - 52) = of_int (n * 2 ^ d)" by (simp add: P)
  then have "round_half_even (?x / pow2 (ilog2 ?x - 52)) = n * 2 ^ d"
    by (simp only: round_half_even_of_int)
  then show ?thesis using x by (simp add: float64_round_pos P)
qed


lemma ceiling_float64_round_quotient:
  assumes "0 < b" "b \<le> a" "a < 2 ^ 53"
  shows "\<lceil>float64_round (of_int a / of_int b)\<rceil> = \<lceil>of_int a / of_int b :: rat\<rceil>"
proof -
  define q :: rat where "q = of_int a / of_int b"
  define N where "N = \<lceil>q\<rceil>"
  define k where "k = ilog2 q"
  define d where "d = nat (52 - k)"
  define m where "m = q * 2 ^ d"
  define R where "R = round_half_even m"
  have rb: "(0::rat) < of_int b" and ra: "(0::rat) < of_int a" using assms by simp_all
  have q1: "1 \<le> q" using assms rb by (simp add: q_def)
  then have q0: "0 < q" by simp
  have "q \<le> of_int a" using rb ra assms(1) by (simp add: q_def field_simps mult_le_cancel_left)
  moreover have "(of_int a :: rat) < of_int (2 ^ 53)" using assms(3) by (simp only: of_int_less_iff)
  ultimately have "q < pow2 53" by (simp add: pow2_numerals)
  then have k1: "k < 53" unfolding k_def using q0 by (intro ilog2_less)
  have "pow2 0 \<le> q" using q1 by (simp add: pow2_numerals)
  then have k0: "0 \<le> k" unfolding k_def using q0 by (intro ilog2_ge)
  have P: "pow2 (k - 52) = 1 / 2 ^ d"
    using k1 by (cases "k = 52") (simp_all add: pow2_def d_def)
  have mq: "q / pow2 (ilog2 q - 52) = m" by (simp add: P m_def flip: k_def)
  have "float64_round q = of_int (round_half_even (q / pow2 (ilog2 q - 52))) * pow2 (k - 52)"
    using q0 by (simp add: float64_round_pos k_def)
  then have fl: "float64_round q = of_int R / 2 ^ d"
    by (simp only: mq P R_def) simp
  have m52: "2 ^ 52 \<le> m" using mantissa_bounds(1)[OF q0] by (simp add: mq)
  have N: "of_int N - 1 < q" "q \<le> of_int N"
    using ceiling_correct[of q] by (simp_all add: N_def)
  \<comment> \<open>upper bound\<close>
  have "m \<le> of_int (N * 2 ^ d)" using N(2) by (simp add: m_def)
  then have "\<lceil>m\<rceil> \<le> N * 2 ^ d" by (simp only: ceiling_le_iff)
  then have "R \<le> N * 2 ^ d" using round_half_even_bounds(2)[of m] by (simp add: R_def)
  then have "(of_int R :: rat) \<le> of_int (N * 2 ^ d)" by (simp only: of_int_le_iff)
  then have up: "float64_round q \<le> of_int N"
    by (simp add: fl field_simps)
  \<comment> \<open>lower bound\<close>
  have "of_int ((N - 1) * 2 ^ d) < m" using N(1) by (simp add: m_def)
  then have fm: "(N - 1) * 2 ^ d \<le> \<lfloor>m\<rfloor>" by (simp add: le_floor_iff)
  have "(N - 1) * 2 ^ d + 1 \<le> R"
  proof (cases "(N - 1) * 2 ^ d = \<lfloor>m\<rfloor>")
    case False
    then show ?thesis using fm round_half_even_bounds(1)[of m] by (simp add: R_def)
  next
    case True
    have "(of_int (N - 1) :: rat) * of_int b < of_int a"
      using N(1) rb by (simp add: q_def field_simps)
    then have "(of_int ((N - 1) * b) :: rat) < of_int a" by simp
    then have "(N - 1) * b < a" by (simp only: of_int_less_iff)
    then have "(N - 1) * b + 1 \<le> a" by simp
    then have "(of_int ((N - 1) * b + 1) :: rat) \<le> of_int a" by (simp only: of_int_le_iff)
    then have "of_int (N - 1) * of_int b + 1 \<le> (of_int a :: rat)" by simp
    then have qn: "1 / of_int b \<le> q - of_int (N - 1)"
      using rb by (simp add: q_def field_simps)
    have "2 ^ 52 * of_int b \<le> (of_int a :: rat) * 2 ^ d"
      using m52 rb by (simp add: m_def q_def field_simps)
    also have "\<dots> < 2 ^ 53 * 2 ^ d"
    proof -
      have "(of_int a :: rat) < of_int (2 ^ 53)" using assms(3) by (simp only: of_int_less_iff)
      then show ?thesis by simp
    qed
    finally have "(of_int b :: rat) < 2 * 2 ^ d" by simp
    then have "1 / 2 < 2 ^ d * (1 / (of_int b :: rat))"
      using rb by (simp add: field_simps)
    also have "\<dots> \<le> 2 ^ d * (q - of_int (N - 1))"
      using qn by (intro mult_left_mono) simp_all
    also have "\<dots> = m - of_int \<lfloor>m\<rfloor>"
    proof -
      have "(of_int \<lfloor>m\<rfloor> :: rat) = of_int ((N - 1) * 2 ^ d)" using True by simp
      then show ?thesis by (simp add: m_def algebra_simps)
    qed
    finally have "R = \<lfloor>m\<rfloor> + 1" unfolding R_def by (rule round_half_even_up)
    then show ?thesis using True by simp
  qed
  then have "(of_int ((N - 1) * 2 ^ d + 1) :: rat) \<le> of_int R" by (simp only: of_int_le_iff)
  then have "of_int (N - 1) * 2 ^ d < (of_int R :: rat)" by simp
  then have lo: "of_int N - 1 < float64_round q"
    by (simp add: fl field_simps)
  have "\<lceil>float64_round q\<rceil> = N" using lo up by (intro ceiling_unique)
  then show ?thesis by (simp add: N_def q_def)
qed

section \<open>Properties of the range planners\<close>

lemma wrap64_id: "- (2 ^ 63) \<le> x \<Longrightarrow> x < 2 ^ 63 \<Longrightarrow> wrap64 x = x"
  by (simp add: wrap64_def)

lemma ceiling_div_int:
  assumes "0 < (b::int)"
  shows "\<lceil>rat_of_int a / rat_of_int b\<rceil> = (a + b - 1) div b"
proof -
  define n where "n = (a + b - 1) div b"
  have "a + b - 1 = n * b + (a + b - 1) mod b"
    by (simp add: n_def)
  moreover have "0 \<le> (a + b - 1) mod b" "(a + b - 1) mod b < b"
    using assms by simp_all
  ultimately have "n * b \<le> a + b - 1" "a + b - 1 < n * b + b"
    by linarith+
  then have lo: "(n - 1) * b < a" and hi: "a \<le> n * b"
    by (simp_all add: algebra_simps)
  have rb: "0 < rat_of_int b" using assms by simp
  have "rat_of_int ((n - 1) * b) < rat_of_int a" using lo by linarith
  then have "rat_of_int n - 1 < rat_of_int a / rat_of_int b"
    using rb by (simp add: pos_less_divide_eq)
  moreover have "rat_of_int a \<le> rat_of_int (n * b)" using hi by linarith
  then have "rat_of_int a / rat_of_int b \<le> rat_of_int n"
    using rb by (simp add: pos_divide_le_eq)
  ultimately have "\<lceil>rat_of_int a / rat_of_int b\<rceil> = n"
    by (intro ceiling_unique)
  then show ?thesis by (simp add: n_def)
qed

text \<open>
  One iteration of the loop of \<^verbatim>\<open>getParts\<close>, and its exit. At the loop head
  \<^verbatim>\<open>start = end\<close>.
\<close>

lemma getParts_loop_done:
  "getParts_loop fsize partSize fsize fsize c out = Some out"
  by (subst getParts_loop.simps) simp

lemma getParts_loop_step:
  assumes "s < fsize" "0 \<le> s + partSize" "s + partSize < 2 ^ 63"
  shows "getParts_loop fsize partSize s s c out =
     getParts_loop fsize partSize
       (if s + partSize > fsize then fsize else s + partSize)
       (if s + partSize > fsize then fsize else s + partSize)
       (wrap64 (c + 1))
       (out @ [\<lparr>ID = c, part.StartByte = s,
          part.EndByte = (if s + partSize > fsize then fsize else s + partSize),
          ETag = [], part.Error = None\<rparr>])"
proof -
  have w: "wrap64 (s + partSize) = s + partSize"
    using assms by (intro wrap64_id) auto
  show ?thesis
    using assms(1) by (subst getParts_loop.simps) (simp only: w Let_def if_True)
qed

text \<open>
  The loop invariant: with \<open>n\<close> parts still to come, no addition wraps as long as
  \<open>s + partSize * n\<close> stays below \<open>2^63\<close>, and the parts to come cover
  \<open>[s, fileSize)\<close>. The counter may wrap after the last part, where it is not read.
\<close>

lemma getParts_loop_exact:
  assumes "0 < partSize" "0 \<le> s" "s \<le> fsize"
    "n = (fsize - s + partSize - 1) div partSize"
    "s + partSize * n < 2 ^ 63" "0 \<le> c" "c + n \<le> 2 ^ 63"
  shows "\<exists>ps. getParts_loop fsize partSize s s c out = Some (out @ ps)
           \<and> covers s ps fsize
           \<and> map ID ps = [c..c + int (length ps) - 1]
           \<and> int (length ps) = n"
  using assms
proof (induction "nat (fsize - s)" arbitrary: s c n out rule: less_induct)
  case less
  show ?case
  proof (cases "s < fsize")
    case False
    with less.prems have s: "s = fsize" by simp
    have "n = 0" using less.prems(1,4) by (simp add: s)
    then show ?thesis by (simp add: s getParts_loop_done)
  next
    case True
    have n1: "1 \<le> n"
    proof -
      have "partSize \<le> fsize - s + partSize - 1" using True by simp
      then have "partSize div partSize \<le> (fsize - s + partSize - 1) div partSize"
        using less.prems(1) by (intro zdiv_mono1) simp_all
      then show ?thesis using less.prems(1,4) by simp
    qed
    have "partSize * 1 \<le> partSize * n"
      using n1 less.prems(1) by (intro mult_left_mono) simp_all
    then have pn: "partSize \<le> partSize * n" by simp
    have sp: "0 \<le> s + partSize" "s + partSize < 2 ^ 63"
      using pn less.prems(1,2,5) by linarith+
    define e where "e = (if s + partSize > fsize then fsize else s + partSize)"
    define p where "p = \<lparr>ID = c, part.StartByte = s, part.EndByte = e,
      ETag = [], part.Error = None\<rparr>"
    have step: "getParts_loop fsize partSize s s c out
                = getParts_loop fsize partSize e e (wrap64 (c + 1)) (out @ [p])"
      unfolding e_def p_def by (rule getParts_loop_step[OF True sp])
    show ?thesis
    proof (cases "s + partSize < fsize")
      case False
      then have e: "e = fsize" by (simp add: e_def)
      have "fsize - s + partSize - 1 = partSize + (fsize - s - 1)" by simp
      moreover have "0 \<le> fsize - s - 1" "fsize - s - 1 < partSize"
        using True False by simp_all
      ultimately have "n = 1"
        using less.prems(4) by (simp only: div_add_self1) (simp add: less.prems(1))
      moreover have "getParts_loop fsize partSize s s c out = Some (out @ [p])"
        by (simp add: step e getParts_loop_done)
      moreover have "covers s [p] fsize" using True by (simp add: p_def e)
      moreover have "map ID [p] = [c..c + int (length [p]) - 1]" by (simp add: p_def)
      ultimately show ?thesis by (intro exI[of _ "[p]"]) simp
    next
      case lt: True
      then have e: "e = s + partSize" by (simp add: e_def)
      define n' where "n' = (fsize - e + partSize - 1) div partSize"
      have "fsize - s + partSize - 1 = (fsize - e + partSize - 1) + partSize"
        by (simp add: e)
      then have nn: "n = n' + 1"
        using less.prems(1,4) unfolding n'_def by (simp only: div_add_self2)
      have n'1: "1 \<le> n'"
      proof -
        have "partSize \<le> fsize - e + partSize - 1" using lt by (simp add: e)
        then have "partSize div partSize \<le> (fsize - e + partSize - 1) div partSize"
          using less.prems(1) by (intro zdiv_mono1) simp_all
        then show ?thesis using less.prems(1) by (simp add: n'_def)
      qed
      have w2: "wrap64 (c + 1) = c + 1"
        using less.prems(6,7) nn n'1 by (intro wrap64_id) auto
      have m: "nat (fsize - e) < nat (fsize - s)"
        using less.prems(1) True by (simp add: e)
      have "e + partSize * n' = s + partSize * n"
        by (simp add: e nn algebra_simps)
      then have h5: "e + partSize * n' < 2 ^ 63" using less.prems(5) by simp
      have h: "0 \<le> e" "e \<le> fsize" "0 \<le> c + 1" "c + 1 + n' \<le> 2 ^ 63"
        using less.prems lt nn by (simp_all add: e)
      obtain ps where ps:
        "getParts_loop fsize partSize e e (c + 1) (out @ [p]) = Some ((out @ [p]) @ ps)"
        "covers e ps fsize"
        "map ID ps = [c + 1..c + 1 + int (length ps) - 1]"
        "int (length ps) = n'"
        using less.hyps[OF m less.prems(1) h(1,2) n'_def h5 h(3,4), of "out @ [p]"] by blast
      have "getParts_loop fsize partSize s s c out = Some (out @ (p # ps))"
        using step ps(1) by (simp add: w2)
      moreover have "covers s (p # ps) fsize"
        using ps(2) less.prems(1) by (simp add: p_def e)
      moreover have "map ID (p # ps) = [c..c + int (length (p # ps)) - 1]"
        using ps(3) by (subst upto_rec1) (auto simp: p_def algebra_simps)
      moreover have "int (length (p # ps)) = n" using ps(4) nn by simp
      ultimately show ?thesis by blast
    qed
  qed
qed

lemma getParts_spec:
  assumes "0 \<le> fsize" "0 < partSize"
    "partSize * \<lceil>rat_of_int fsize / rat_of_int partSize\<rceil> < 2 ^ 63"
  shows "\<exists>ps. getParts fsize partSize = Some ps
           \<and> int (length ps) = \<lceil>rat_of_int fsize / rat_of_int partSize\<rceil>
           \<and> covers 0 ps fsize
           \<and> map ID ps = [1..int (length ps)]"
proof -
  define n where "n = (fsize - 0 + partSize - 1) div partSize"
  have nc: "n = \<lceil>rat_of_int fsize / rat_of_int partSize\<rceil>"
    using assms(2) by (simp add: n_def ceiling_div_int)
  have n0: "0 \<le> n"
    using assms(1,2) unfolding n_def by (intro pos_imp_zdiv_nonneg_iff[THEN iffD2]) simp_all
  have pn: "partSize * n < 2 ^ 63" using assms(3) by (simp only: nc)
  have "1 * n \<le> partSize * n" using assms(2) n0 by (intro mult_right_mono) simp_all
  then have "1 + n \<le> 2 ^ 63" using pn by simp
  moreover have "0 + partSize * n < 2 ^ 63" using pn by simp
  ultimately obtain ps where ps: "getParts_loop fsize partSize 0 0 1 [] = Some ([] @ ps)"
    "covers 0 ps fsize" "map ID ps = [1..1 + int (length ps) - 1]"
    "int (length ps) = n"
    using getParts_loop_exact[OF assms(2) order_refl assms(1) n_def, of 1 "[]"] by auto
  show ?thesis using ps nc by (simp add: getParts_def)
qed

text \<open>
  C4 (as amended). For every \<open>fileSize \<ge> 0\<close> and \<open>partSize > 0\<close> with
  \<open>partSize * ceil(fileSize / partSize) < 2^63\<close> (the file size rounded up to a whole
  number of parts fits in 64 bits, which is exactly when no addition
  \<^verbatim>\<open>start + partSize\<close> wraps), \<^verbatim>\<open>getParts\<close> returns, and it emits exactly
  \<open>ceil(fileSize / partSize)\<close> half-open ranges that partition \<open>[0, fileSize)\<close>
  contiguously, without gap or overlap, numbered \<open>1, 2, 3, ...\<close> in the order emitted;
  for \<open>fileSize = 0\<close> it emits no range.
\<close>

theorem getParts_partitions:
  assumes "0 \<le> fsize" "0 < partSize"
    "partSize * \<lceil>rat_of_int fsize / rat_of_int partSize\<rceil> < 2 ^ 63"
  shows "\<exists>ps. getParts fsize partSize = Some ps
           \<and> int (length ps) = \<lceil>rat_of_int fsize / rat_of_int partSize\<rceil>
           \<and> covers 0 ps fsize
           \<and> map ID ps = [1..int (length ps)]
           \<and> (fsize = 0 \<longrightarrow> ps = [])"
proof -
  obtain ps where ps: "getParts fsize partSize = Some ps"
    "int (length ps) = \<lceil>rat_of_int fsize / rat_of_int partSize\<rceil>"
    "covers 0 ps fsize" "map ID ps = [1..int (length ps)]"
    using getParts_spec[OF assms] by blast
  have "fsize = 0 \<longrightarrow> ps = []"
    using ps(2) by auto
  then show ?thesis using ps by blast
qed

theorem getParts_partitions_witness:
  "(0::int) \<le> 25 * MB \<and> (0::int) < 10 * MB
   \<and> 10 * MB * \<lceil>rat_of_int (25 * MB) / rat_of_int (10 * MB)\<rceil> < 2 ^ 63 \<and>
   (\<exists>ps. getParts (25 * MB) (10 * MB) = Some ps \<and> length ps = 3
      \<and> covers 0 ps (25 * MB) \<and> map ID ps = [1..int (length ps)])"
proof -
  have c: "\<lceil>rat_of_int (25 * MB) / rat_of_int (10 * MB)\<rceil> = 3"
    by (subst ceiling_div_int) (simp_all add: MB_def KB_def)
  have h: "(0::int) \<le> 25 * MB" "(0::int) < 10 * MB"
    "10 * MB * \<lceil>rat_of_int (25 * MB) / rat_of_int (10 * MB)\<rceil> < 2 ^ 63"
    unfolding c by (simp_all add: MB_def KB_def)
  obtain ps where "getParts (25 * MB) (10 * MB) = Some ps"
    "int (length ps) = \<lceil>rat_of_int (25 * MB) / rat_of_int (10 * MB)\<rceil>"
    "covers 0 ps (25 * MB)" "map ID ps = [1..int (length ps)]"
    using getParts_partitions[OF h] by blast
  then have "\<exists>ps. getParts (25 * MB) (10 * MB) = Some ps \<and> length ps = 3
      \<and> covers 0 ps (25 * MB) \<and> map ID ps = [1..int (length ps)]"
    unfolding c by (intro exI[of _ ps]) simp
  then show ?thesis using h by blast
qed

text \<open>
  C4 as stated fails where the 64-bit addition wraps: for a file of \<open>2^62 + 2\<close> bytes
  and a part size of \<open>2^62 + 1\<close>, \<^verbatim>\<open>getParts\<close> emits five ranges, two of them with a
  negative bound, where \<open>ceil(fileSize / partSize) = 2\<close> (and
  \<open>partSize * 2 = 2^63 + 2\<close> is outside the 64-bit range).
\<close>

theorem getParts_wraps_counterexample:
  "getParts (2 ^ 62 + 2) (2 ^ 62 + 1) = Some
     [\<lparr>ID = 1, part.StartByte = 0, part.EndByte = 4611686018427387905,
        ETag = [], part.Error = None\<rparr>,
      \<lparr>ID = 2, part.StartByte = 4611686018427387905, part.EndByte = - 9223372036854775806,
        ETag = [], part.Error = None\<rparr>,
      \<lparr>ID = 3, part.StartByte = - 9223372036854775806, part.EndByte = - 4611686018427387901,
        ETag = [], part.Error = None\<rparr>,
      \<lparr>ID = 4, part.StartByte = - 4611686018427387901, part.EndByte = 4,
        ETag = [], part.Error = None\<rparr>,
      \<lparr>ID = 5, part.StartByte = 4, part.EndByte = 4611686018427387906,
        ETag = [], part.Error = None\<rparr>]
   \<and> \<lceil>rat_of_int (2 ^ 62 + 2) / rat_of_int (2 ^ 62 + 1)\<rceil> = (2::int)"
proof -
  have "\<lceil>rat_of_int (2 ^ 62 + 2) / rat_of_int (2 ^ 62 + 1)\<rceil> = (2::int)"
    by (subst ceiling_div_int) simp_all
  moreover have "getParts (2 ^ 62 + 2) (2 ^ 62 + 1) = Some
     [\<lparr>ID = 1, part.StartByte = 0, part.EndByte = 4611686018427387905,
        ETag = [], part.Error = None\<rparr>,
      \<lparr>ID = 2, part.StartByte = 4611686018427387905, part.EndByte = - 9223372036854775806,
        ETag = [], part.Error = None\<rparr>,
      \<lparr>ID = 3, part.StartByte = - 9223372036854775806, part.EndByte = - 4611686018427387901,
        ETag = [], part.Error = None\<rparr>,
      \<lparr>ID = 4, part.StartByte = - 4611686018427387901, part.EndByte = 4,
        ETag = [], part.Error = None\<rparr>,
      \<lparr>ID = 5, part.StartByte = 4, part.EndByte = 4611686018427387906,
        ETag = [], part.Error = None\<rparr>]"
    by (simp add: getParts_def getParts_loop.simps wrap64_def)
  ultimately show ?thesis by blast
qed

subsection \<open>The number of chunks\<close>

lemma getNumberOfChunks_exact:
  assumes "0 \<le> a" "a < 2 ^ 53" "0 < b"
  shows "getNumberOfChunks a b = Some \<lceil>rat_of_int a / rat_of_int b\<rceil>"
proof -
  define c where "c = \<lceil>float64_round (float64_of_int64 a / float64_of_int64 b)\<rceil>"
  have c: "c = \<lceil>rat_of_int a / rat_of_int b\<rceil>"
  proof (cases "a = 0")
    case True
    then show ?thesis by (simp add: c_def float64_of_int64_def float64_round_def)
  next
    case False
    then have a: "0 < a" using assms(1) by simp
    have fa: "float64_of_int64 a = of_int a"
      using a assms(2) by (simp add: float64_of_int64_def float64_round_exact_int)
    have ra: "(0::rat) < of_int a" and rb: "(0::rat) < of_int b" using a assms(3) by simp_all
    show ?thesis
    proof (cases "b \<le> a")
      case True
      then have "b < 2 ^ 53" using assms(2) by simp
      then have "float64_of_int64 b = of_int b"
        using assms(3) by (simp add: float64_of_int64_def float64_round_exact_int)
      then show ?thesis
        using ceiling_float64_round_quotient[OF assms(3) True assms(2)] by (simp add: c_def fa)
    next
      case False
      then have ab: "a < b" by simp
      have q: "0 < rat_of_int a / rat_of_int b" "rat_of_int a / rat_of_int b < 1"
        using ra rb ab by simp_all
      then have e: "\<lceil>rat_of_int a / rat_of_int b\<rceil> = 1"
        by (intro ceiling_unique) simp_all
      have "rat_of_int a \<le> float64_of_int64 b \<and> 0 < float64_of_int64 b \<and> rat_of_int a \<noteq> float64_of_int64 b"
      proof (cases "b < 2 ^ 53")
        case True
        then have "float64_of_int64 b = of_int b"
          using assms(3) by (simp add: float64_of_int64_def float64_round_exact_int)
        then show ?thesis using ab rb by simp
      next
        case False
        then have "(of_int (2 ^ 53) :: rat) \<le> of_int b" by (simp only: of_int_le_iff)
        then have "pow2 53 \<le> rat_of_int b" by (simp add: pow2_numerals)
        then have "53 \<le> ilog2 (rat_of_int b)" using rb by (intro ilog2_ge)
        then have "pow2 53 \<le> pow2 (ilog2 (rat_of_int b))" by (rule pow2_mono)
        then have "2 ^ 53 \<le> float64_of_int64 b"
          using float64_round_bounds(1)[OF rb]
          by (simp add: float64_of_int64_def pow2_numerals)
        moreover have "rat_of_int a < of_int (2 ^ 53)" using assms(2) by (simp only: of_int_less_iff)
        ultimately show ?thesis by simp
      qed
      then have "0 < float64_of_int64 a / float64_of_int64 b"
        "float64_of_int64 a / float64_of_int64 b < 1"
        using ra by (simp_all add: fa)
      then have "c = 1" unfolding c_def by (rule ceiling_float64_round_small)
      then show ?thesis using e by simp
    qed
  qed
  have "0 \<le> rat_of_int a / rat_of_int b" using assms by simp
  then have "0 \<le> \<lceil>rat_of_int a / rat_of_int b\<rceil>"
    by (simp add: zero_le_ceiling)
  moreover have "rat_of_int a / rat_of_int b \<le> rat_of_int a"
  proof -
    have "rat_of_int a * 1 \<le> rat_of_int a * rat_of_int b"
      using assms by (intro mult_left_mono) simp_all
    then show ?thesis using assms(3) by (simp add: field_simps)
  qed
  then have ca: "\<lceil>rat_of_int a / rat_of_int b\<rceil> \<le> a" by (simp only: ceiling_le_iff)
  ultimately have "0 \<le> c" "c \<le> a" using c by simp_all
  then have r: "- (2 ^ 63) \<le> c \<and> c < 2 ^ 63" using assms(2) by simp
  have "getNumberOfChunks a b = (if - (2 ^ 63) \<le> c \<and> c < 2 ^ 63 then Some c else None)"
    using assms(3) by (simp add: getNumberOfChunks_def Let_def c_def)
  also have "\<dots> = Some c" using r by (rule if_P)
  finally show ?thesis by (simp only: c)
qed

lemma length_generateChunks_loop:
  "length (generateChunks_loop totalParts totalSize partSize i start endb) = nat (totalParts - i)"
proof (induction totalParts totalSize partSize i start endb rule: generateChunks_loop.induct)
  case (1 totalParts totalSize partSize i start endb)
  show ?case
  proof (cases "i < totalParts")
    case True
    have "nat (totalParts - i) = Suc (nat (totalParts - (i + 1)))" using True by simp
    then show ?thesis
      using 1[OF True refl refl refl] True
      by (subst generateChunks_loop.simps)
        (simp only: Let_def if_True list.size length_Cons)
  next
    case False
    then show ?thesis
      by (subst generateChunks_loop.simps) (simp)
  qed
qed

lemma length_generateChunks:
  "0 \<le> n \<Longrightarrow> int (length (generateChunks n totalSize partSize)) = n"
  by (simp add: generateChunks_def length_generateChunks_loop)

lemma ceiling_times_bound:
  assumes "0 < (b::int)"
  shows "b * \<lceil>rat_of_int a / rat_of_int b\<rceil> \<le> a + b - 1"
proof -
  have "(a + b - 1) div b * b \<le> a + b - 1"
    using assms by (metis div_mult_mod_eq add_increasing2 pos_mod_sign order_refl)
  then show ?thesis using assms by (simp add: ceiling_div_int mult.commute)
qed

lemma ceiling_quotient_nonneg:
  assumes "0 \<le> (a::int)" "0 < (b::int)"
  shows "0 \<le> \<lceil>rat_of_int a / rat_of_int b\<rceil>"
  using assms by (simp add: ceiling_div_int pos_imp_zdiv_nonneg_iff)

text \<open>
  C7 (as amended). For every \<open>totalSize \<ge> 0\<close> and \<open>partSize > 0\<close> with
  \<open>partSize * ceil(totalSize / partSize) < 2^63\<close> (no addition of \<^verbatim>\<open>getParts\<close> wraps):
  \<^verbatim>\<open>getNumberOfChunks\<close> equals the exact integer ceiling of \<open>totalSize / partSize\<close> if
  and only if rounding \<open>totalSize\<close>, \<open>partSize\<close> and their quotient to \<^verbatim>\<open>float64\<close>
  leaves the ceiling unchanged, and that is so for every \<open>totalSize < 2^53\<close>;
  \<^verbatim>\<open>getParts\<close> emits exactly the exact ceiling's number of ranges; and
  \<^verbatim>\<open>generateChunks\<close> emits exactly as many ranges as \<^verbatim>\<open>getNumberOfChunks\<close> returned.
\<close>

theorem getNumberOfChunks_ceiling:
  assumes "0 \<le> totalSize" "0 < partSize"
    "partSize * \<lceil>rat_of_int totalSize / rat_of_int partSize\<rceil> < 2 ^ 63"
  shows "(getNumberOfChunks totalSize partSize
            = Some \<lceil>rat_of_int totalSize / rat_of_int partSize\<rceil>
          \<longleftrightarrow> \<lceil>float64_round (float64_of_int64 totalSize / float64_of_int64 partSize)\<rceil>
                = \<lceil>rat_of_int totalSize / rat_of_int partSize\<rceil>)
       \<and> (totalSize < 2 ^ 53 \<longrightarrow> getNumberOfChunks totalSize partSize
            = Some \<lceil>rat_of_int totalSize / rat_of_int partSize\<rceil>)
       \<and> (\<exists>ps. getParts totalSize partSize = Some ps
            \<and> int (length ps) = \<lceil>rat_of_int totalSize / rat_of_int partSize\<rceil>)
       \<and> (\<forall>n. getNumberOfChunks totalSize partSize = Some n
            \<longrightarrow> int (length (generateChunks n totalSize partSize)) = n)"
proof -
  define N where "N = \<lceil>rat_of_int totalSize / rat_of_int partSize\<rceil>"
  define c where "c = \<lceil>float64_round (float64_of_int64 totalSize / float64_of_int64 partSize)\<rceil>"
  have N0: "0 \<le> N" unfolding N_def by (rule ceiling_quotient_nonneg[OF assms(1,2)])
  have "1 * N \<le> partSize * N" using assms(2) N0 by (intro mult_right_mono) simp_all
  moreover have "partSize * N < 2 ^ 63" using assms(3) unfolding N_def .
  ultimately have N63: "N < 2 ^ 63" by simp
  have g: "getNumberOfChunks totalSize partSize
             = (if - (2 ^ 63) \<le> c \<and> c < 2 ^ 63 then Some c else None)"
    using assms(2) by (simp add: getNumberOfChunks_def Let_def c_def)
  have 1: "getNumberOfChunks totalSize partSize = Some N \<longleftrightarrow> c = N"
    using N0 N63 by (auto simp: g)
  have 2: "totalSize < 2 ^ 53 \<longrightarrow> getNumberOfChunks totalSize partSize = Some N"
    unfolding N_def using getNumberOfChunks_exact[OF assms(1) _ assms(2)] by blast
  have 3: "\<exists>ps. getParts totalSize partSize = Some ps \<and> int (length ps) = N"
    unfolding N_def using getParts_spec[OF assms] by blast
  have 4: "\<forall>n. getNumberOfChunks totalSize partSize = Some n
            \<longrightarrow> int (length (generateChunks n totalSize partSize)) = n"
  proof (intro allI impI)
    fix n assume n: "getNumberOfChunks totalSize partSize = Some n"
    have "0 \<le> float64_of_int64 totalSize"
    proof (cases "totalSize = 0")
      case True
      then show ?thesis by (simp add: float64_of_int64_def float64_round_def)
    next
      case False
      then have "(0::rat) < of_int totalSize" using assms(1) by simp
      then show ?thesis
        using float64_round_bounds(1)[of "of_int totalSize"] pow2_pos[of "ilog2 (of_int totalSize)"]
        by (simp add: float64_of_int64_def)
    qed
    moreover have "0 < float64_of_int64 partSize"
    proof -
      have "(0::rat) < of_int partSize" using assms(2) by simp
      then show ?thesis
        using float64_round_bounds(1)[of "of_int partSize"] pow2_pos[of "ilog2 (of_int partSize)"]
        by (simp add: float64_of_int64_def)
    qed
    ultimately have q0: "0 \<le> float64_of_int64 totalSize / float64_of_int64 partSize" by simp
    have "0 \<le> float64_round (float64_of_int64 totalSize / float64_of_int64 partSize)"
    proof (cases "float64_of_int64 totalSize / float64_of_int64 partSize = 0")
      case True
      then show ?thesis by (simp add: float64_round_def)
    next
      case False
      with q0 have p: "0 < float64_of_int64 totalSize / float64_of_int64 partSize"
        by (simp only: order.strict_iff_order) auto
      show ?thesis
        using float64_round_bounds(1)[OF p]
          pow2_pos[of "ilog2 (float64_of_int64 totalSize / float64_of_int64 partSize)"]
        by simp
    qed
    then have "0 \<le> c" unfolding c_def by (simp add: zero_le_ceiling)
    moreover have "n = c" using n by (simp add: g split: if_splits)
    ultimately show "int (length (generateChunks n totalSize partSize)) = n"
      by (simp add: length_generateChunks)
  qed
  show ?thesis using 1 2 3 4 unfolding N_def c_def by blast
qed

theorem getNumberOfChunks_ceiling_witness:
  "(0::int) \<le> 25 * MB \<and> (0::int) < 10 * MB
   \<and> 10 * MB * \<lceil>rat_of_int (25 * MB) / rat_of_int (10 * MB)\<rceil> < 2 ^ 63
   \<and> 25 * MB < 2 ^ 53
   \<and> getNumberOfChunks (25 * MB) (10 * MB) = Some 3
   \<and> (\<exists>ps. getParts (25 * MB) (10 * MB) = Some ps \<and> length ps = 3)
   \<and> length (generateChunks 3 (25 * MB) (10 * MB)) = 3"
proof -
  have c: "\<lceil>rat_of_int (25 * MB) / rat_of_int (10 * MB)\<rceil> = 3"
    by (subst ceiling_div_int) (simp_all add: MB_def KB_def)
  have h: "(0::int) \<le> 25 * MB" "(0::int) < 10 * MB"
    "10 * MB * \<lceil>rat_of_int (25 * MB) / rat_of_int (10 * MB)\<rceil> < 2 ^ 63"
    unfolding c by (simp_all add: MB_def KB_def)
  have s: "25 * MB < 2 ^ 53" by (simp add: MB_def KB_def)
  note t = getNumberOfChunks_ceiling[OF h, unfolded c]
  have g: "getNumberOfChunks (25 * MB) (10 * MB) = Some 3" using t s by blast
  moreover have "\<exists>ps. getParts (25 * MB) (10 * MB) = Some ps \<and> length ps = 3"
    using t by auto
  moreover have "length (generateChunks 3 (25 * MB) (10 * MB)) = 3"
    using t g by auto
  ultimately show ?thesis using h s by blast
qed

text \<open>
  C7 as stated fails above \<open>2^53\<close>, where \<^verbatim>\<open>float64(totalSize)\<close> rounds: for a file of
  \<open>2^53 + 1\<close> bytes and a part size of \<open>2^53\<close>, \<^verbatim>\<open>getNumberOfChunks\<close> returns 1, the
  exact ceiling is 2, and \<^verbatim>\<open>getParts\<close> emits 2 ranges.
\<close>

theorem getNumberOfChunks_rounds_counterexample:
  "getNumberOfChunks (2 ^ 53 + 1) (2 ^ 53) = Some 1
   \<and> \<lceil>rat_of_int (2 ^ 53 + 1) / rat_of_int (2 ^ 53)\<rceil> = (2::int)
   \<and> getParts (2 ^ 53 + 1) (2 ^ 53) = Some
     [\<lparr>ID = 1, part.StartByte = 0, part.EndByte = 9007199254740992,
        ETag = [], part.Error = None\<rparr>,
      \<lparr>ID = 2, part.StartByte = 9007199254740992, part.EndByte = 9007199254740993,
        ETag = [], part.Error = None\<rparr>]"
proof -
  have "getNumberOfChunks (2 ^ 53 + 1) (2 ^ 53) = Some 1"
    by code_simp
  moreover have "\<lceil>rat_of_int (2 ^ 53 + 1) / rat_of_int (2 ^ 53)\<rceil> = (2::int)"
    by (subst ceiling_div_int) simp_all
  moreover have "getParts (2 ^ 53 + 1) (2 ^ 53) = Some
     [\<lparr>ID = 1, part.StartByte = 0, part.EndByte = 9007199254740992,
        ETag = [], part.Error = None\<rparr>,
      \<lparr>ID = 2, part.StartByte = 9007199254740992, part.EndByte = 9007199254740993,
        ETag = [], part.Error = None\<rparr>]"
    by (simp add: getParts_def getParts_loop.simps wrap64_def)
  ultimately show ?thesis by blast
qed

text \<open>
  C1. The claim asks of every range \<open>end = min (start + partSize - 1) (totalSize - 1)\<close>.
  For a file of 25 MB in parts of 10 MB, \<^verbatim>\<open>generateChunks\<close> emits the inclusive ranges
  \<open>[0, 10485759]\<close>, \<open>[10485760, 20971521]\<close> and \<open>[20971522, 26214400]\<close>: the second
  range ends at \<open>start + partSize + 1\<close> and the last one at \<open>totalSize\<close>, where the
  claim gives \<open>20971519\<close> and \<open>26214399\<close>.
\<close>

theorem generateChunks_off_by_two:
  "generateChunks 3 (25 * MB) PartSize =
     [\<lparr>chunk.StartByte = 0, chunk.EndByte = 10485759, PartNumber = 0, chunk.Error = None\<rparr>,
      \<lparr>chunk.StartByte = 10485760, chunk.EndByte = 20971521, PartNumber = 1,
        chunk.Error = None\<rparr>,
      \<lparr>chunk.StartByte = 20971522, chunk.EndByte = 26214400, PartNumber = 2,
        chunk.Error = None\<rparr>]"
  by (simp add: generateChunks_def generateChunks_loop.simps PartSize_def MB_def KB_def
      wrap64_def)

section \<open>Properties of pagination and responses\<close>

lemma getRateLimit_error:
  "snd (getRateLimit resp) \<noteq> None \<longleftrightarrow>
     rejected (Header_Get (Header resp) headerRateLimit)
     \<or> rejected (Header_Get (Header resp) headerRateRemaining)"
  by (auto simp: getRateLimit_def rejected_def Let_def)

lemma getTotalMatchingQuery_error:
  "snd (getTotalMatchingQuery resp) \<noteq> None \<longleftrightarrow>
     rejected (Header_Get (Header resp) headerTotalMatchingQuery)"
  by (auto simp: getTotalMatchingQuery_def rejected_def Let_def)

lemma NewResponse_error_iff:
  "snd (NewResponse parse_links resp) \<noteq> None \<longleftrightarrow>
     rejected (Header_Get (Header resp) headerRateLimit)
     \<or> rejected (Header_Get (Header resp) headerRateRemaining)
     \<or> rejected (Header_Get (Header resp) headerTotalMatchingQuery)"
proof (cases "snd (getRateLimit resp) \<noteq> None")
  case True
  then have "snd (NewResponse parse_links resp) \<noteq> None"
    by (simp add: NewResponse_def Let_def)
  then show ?thesis using True getRateLimit_error[of resp] by blast
next
  case False
  then have "snd (NewResponse parse_links resp) \<noteq> None
     \<longleftrightarrow> snd (getTotalMatchingQuery resp) \<noteq> None"
    by (simp add: NewResponse_def Let_def)
  then show ?thesis
    using False getRateLimit_error[of resp] getTotalMatchingQuery_error[of resp] by blast
qed

lemma NewResponse_not_nil: "fst (NewResponse parse_links resp) \<noteq> None"
  by (simp add: NewResponse_def Let_def)

lemma NewResponse_absent:
  assumes "Header_Get (Header resp) headerRateLimit = []"
    "Header_Get (Header resp) headerRateRemaining = []"
    "Header_Get (Header resp) headerRateReset = []"
    "Header_Get (Header resp) headerTotalMatchingQuery = []"
  shows "NewResponse parse_links resp =
    (Some \<lparr>Response = resp,
       Page = \<lparr>TotalMatchingQuery = 0,
         Links = (\<lambda>rel. case parse_links resp rel of None \<Rightarrow> None
                   | Some uri \<Rightarrow> Some \<lparr>Href = uri, Rel = rel\<rparr>)\<rparr>,
       Rate = Some \<lparr>Limit = 0, Remaining = 0, Reset = None\<rparr>\<rparr>, None)"
  using assms
  by (simp add: NewResponse_def getRateLimit_def getTotalMatchingQuery_def NewPage_def Let_def)

lemma getRateLimit_bad_reset:
  assumes "snd (ParseInt (Header_Get (Header resp) headerRateReset)) \<noteq> None"
  shows "Rate.Reset (fst (getRateLimit resp)) = None"
  using assms by (auto simp: getRateLimit_def Let_def)

lemma NewResponse_Rate:
  assumes "fst (NewResponse parse_links resp) = Some r" "Response.Rate r = Some rt"
  shows "rt = fst (getRateLimit resp)"
  using assms by (auto simp: NewResponse_def Let_def split: if_splits)

text \<open>
  C10 (as amended). \<^verbatim>\<open>NewResponse\<close> returns a non-nil error if and only if the first
  value of \<^verbatim>\<open>X-RateLimit-Limit\<close>, \<^verbatim>\<open>X-RateLimit-Remaining\<close> or
  \<^verbatim>\<open>X-Total-Matching-Query\<close> is not empty and is refused by \<^verbatim>\<open>strconv.Atoi\<close> (it is
  not an optionally signed decimal integer of the 64-bit range). The returned
  \<^verbatim>\<open>Response\<close> pointer is never nil, also with an error. When the four headers are
  absent or empty, the error is nil and \<^verbatim>\<open>Rate\<close> and \<^verbatim>\<open>TotalMatchingQuery\<close> are zero.
  A value of \<^verbatim>\<open>X-RateLimit-Reset\<close> that does not parse leaves \<^verbatim>\<open>Reset\<close> zero.
\<close>

theorem NewResponse_errors:
  "(snd (NewResponse parse_links resp) \<noteq> None \<longleftrightarrow>
      rejected (Header_Get (Header resp) headerRateLimit)
      \<or> rejected (Header_Get (Header resp) headerRateRemaining)
      \<or> rejected (Header_Get (Header resp) headerTotalMatchingQuery))
   \<and> fst (NewResponse parse_links resp) \<noteq> None
   \<and> (Header_Get (Header resp) headerRateLimit = []
        \<and> Header_Get (Header resp) headerRateRemaining = []
        \<and> Header_Get (Header resp) headerRateReset = []
        \<and> Header_Get (Header resp) headerTotalMatchingQuery = []
      \<longrightarrow> snd (NewResponse parse_links resp) = None
        \<and> (\<exists>r. fst (NewResponse parse_links resp) = Some r
              \<and> Response.Rate r = Some \<lparr>Limit = 0, Remaining = 0, Reset = None\<rparr>
              \<and> TotalMatchingQuery (Response.Page r) = 0))
   \<and> (snd (ParseInt (Header_Get (Header resp) headerRateReset)) \<noteq> None
      \<longrightarrow> (\<forall>r rt. fst (NewResponse parse_links resp) = Some r \<and> Response.Rate r = Some rt
              \<longrightarrow> Rate.Reset rt = None))"
proof (intro conjI impI allI)
  show "snd (NewResponse parse_links resp) \<noteq> None \<longleftrightarrow>
      rejected (Header_Get (Header resp) headerRateLimit)
      \<or> rejected (Header_Get (Header resp) headerRateRemaining)
      \<or> rejected (Header_Get (Header resp) headerTotalMatchingQuery)"
    by (rule NewResponse_error_iff)
  show "fst (NewResponse parse_links resp) \<noteq> None" by (rule NewResponse_not_nil)
next
  assume a: "Header_Get (Header resp) headerRateLimit = []
        \<and> Header_Get (Header resp) headerRateRemaining = []
        \<and> Header_Get (Header resp) headerRateReset = []
        \<and> Header_Get (Header resp) headerTotalMatchingQuery = []"
  then show "snd (NewResponse parse_links resp) = None" by (simp add: NewResponse_absent)
  from a show "\<exists>r. fst (NewResponse parse_links resp) = Some r
              \<and> Response.Rate r = Some \<lparr>Limit = 0, Remaining = 0, Reset = None\<rparr>
              \<and> TotalMatchingQuery (Response.Page r) = 0"
    by (simp add: NewResponse_absent)
next
  fix r rt
  assume b: "snd (ParseInt (Header_Get (Header resp) headerRateReset)) \<noteq> None"
    and c: "fst (NewResponse parse_links resp) = Some r \<and> Response.Rate r = Some rt"
  show "Rate.Reset rt = None"
    using NewResponse_Rate[of parse_links resp r rt] c getRateLimit_bad_reset[OF b] by simp
qed

lemma Atoi_samples:
  "Atoi ''99999999999999999999'' = (9223372036854775807, Some (NumError ErrRange))"
  "ParseInt ''soon'' = (0, Some (NumError ErrSyntax))"
  "Atoi ''60'' = (60, None)"
  by (simp_all add: Atoi_def ParseInt_def ParseUint_def is_digit_def Let_def)

theorem NewResponse_errors_witness:
  "snd (NewResponse (\<lambda>_. Map.empty) \<lparr>StatusCode = 200, Header = Map.empty\<rparr>) = None
   \<and> (\<exists>r. fst (NewResponse (\<lambda>_. Map.empty) \<lparr>StatusCode = 200, Header = Map.empty\<rparr>) = Some r
         \<and> Response.Rate r = Some \<lparr>Limit = 0, Remaining = 0, Reset = None\<rparr>
         \<and> TotalMatchingQuery (Response.Page r) = 0)
   \<and> snd (ParseInt ''soon'') \<noteq> None
   \<and> (\<exists>r rt. fst (NewResponse (\<lambda>_. Map.empty)
           \<lparr>StatusCode = 200, Header = [headerRateLimit \<mapsto> [''60''], headerRateReset \<mapsto> [''soon'']]\<rparr>) = Some r
         \<and> Response.Rate r = Some rt \<and> Rate.Reset rt = None \<and> Rate.Limit rt = 60)"
proof -
  let ?e = "\<lparr>StatusCode = 200, Header = Map.empty\<rparr>"
  let ?s = "\<lparr>StatusCode = 200,
    Header = [headerRateLimit \<mapsto> [''60''], headerRateReset \<mapsto> [''soon'']]\<rparr>"
  have h: "Header_Get (Header ?e) headerRateLimit = []
        \<and> Header_Get (Header ?e) headerRateRemaining = []
        \<and> Header_Get (Header ?e) headerRateReset = []
        \<and> Header_Get (Header ?e) headerTotalMatchingQuery = []"
    by (simp add: Header_Get_def)
  have 1: "snd (NewResponse (\<lambda>_. Map.empty) ?e) = None
     \<and> (\<exists>r. fst (NewResponse (\<lambda>_. Map.empty) ?e) = Some r
         \<and> Response.Rate r = Some \<lparr>Limit = 0, Remaining = 0, Reset = None\<rparr>
         \<and> TotalMatchingQuery (Response.Page r) = 0)"
    using NewResponse_errors[of "\<lambda>_. Map.empty" ?e] h by blast
  let ?h = "[headerRateLimit \<mapsto> [''60''], headerRateReset \<mapsto> [''soon'']]"
  have g: "Header_Get ?h headerRateReset = ''soon''"
    "Header_Get ?h headerRateLimit = ''60''"
    "Header_Get ?h headerRateRemaining = []"
    "Header_Get ?h headerTotalMatchingQuery = []"
    by (simp_all add: Header_Get_def headerRateLimit_def headerRateReset_def
        headerRateRemaining_def headerTotalMatchingQuery_def)
  have b: "snd (ParseInt (Header_Get (Header ?s) headerRateReset)) \<noteq> None"
    by (simp add: g Atoi_samples)
  have ne: "snd (NewResponse (\<lambda>_. Map.empty) ?s) = None"
    using NewResponse_errors[of "\<lambda>_. Map.empty" ?s]
    by (simp add: g rejected_def Atoi_samples)
  obtain r where r: "fst (NewResponse (\<lambda>_. Map.empty) ?s) = Some r"
    using NewResponse_errors[of "\<lambda>_. Map.empty" ?s] by blast
  have "snd (getRateLimit ?s) = None" using ne getRateLimit_error[of ?s]
    by (simp add: g rejected_def Atoi_samples)
  then have rr: "Response.Rate r = Some (fst (getRateLimit ?s))"
    using r by (auto simp: NewResponse_def Let_def split: if_splits)
  have "Rate.Reset (fst (getRateLimit ?s)) = None"
    using NewResponse_errors[of "\<lambda>_. Map.empty" ?s] b r rr by blast
  moreover have "Rate.Limit (fst (getRateLimit ?s)) = 60"
    by (simp add: getRateLimit_def Let_def g Atoi_samples)
  ultimately have 2: "\<exists>r rt. fst (NewResponse (\<lambda>_. Map.empty) ?s) = Some r
         \<and> Response.Rate r = Some rt \<and> Rate.Reset rt = None \<and> Rate.Limit rt = 60"
    using r rr by blast
  have 3: "snd (ParseInt ''soon'') \<noteq> None" by (simp add: Atoi_samples)
  show ?thesis using 1 2 3 by blast
qed

text \<open>
  C10 as stated fails in both directions: a header that is present with an empty value
  is present and not numeric, and gives no error; a header of twenty digits is numeric,
  and gives the range error of \<^verbatim>\<open>strconv.Atoi\<close>.
\<close>

theorem NewResponse_present_counterexample:
  "snd (NewResponse (\<lambda>_. Map.empty)
          \<lparr>StatusCode = 200, Header = [headerRateLimit \<mapsto> [[]]]\<rparr>) = None
   \<and> snd (NewResponse (\<lambda>_. Map.empty)
          \<lparr>StatusCode = 200, Header = [headerRateLimit \<mapsto> [''99999999999999999999'']]\<rparr>)
       = Some (NumError ErrRange)"
  by (simp add: NewResponse_def getRateLimit_def getTotalMatchingQuery_def Header_Get_def
      Let_def Atoi_samples headerRateLimit_def headerRateReset_def
      headerRateRemaining_def headerTotalMatchingQuery_def)

text \<open>
  C9. The claim, like the comment of \<^verbatim>\<open>intQueryField\<close> ("On any error, 0 is
  returned"), gives 0 for a parameter that does not parse. For a next link with
  \<^verbatim>\<open>limit=99999999999999999999\<close>, \<^verbatim>\<open>strconv.Atoi\<close> returns the largest \<^verbatim>\<open>int\<close> together
  with a range error; the code drops the error and keeps the value, so \<^verbatim>\<open>Limit\<close> is
  \<open>9223372036854775807\<close> and \<^verbatim>\<open>HasNextPage\<close> is true.
\<close>

theorem HasNextPage_on_range_error:
  "Atoi ''99999999999999999999'' = (9223372036854775807, Some (NumError ErrRange))
   \<and> Link_Limit (\<lambda>href. Some (\<lambda>field. if field = ''limit'' then ''99999999999999999999'' else []))
        \<lparr>Href = ''https://api.sbgenomics.com/v2/files?limit=99999999999999999999'', Rel = ''next''\<rparr>
       = 9223372036854775807
   \<and> HasNextPage (\<lambda>href. Some (\<lambda>field. if field = ''limit'' then ''99999999999999999999'' else []))
        (Some \<lparr>TotalMatchingQuery = 0,
           Links = [''next'' \<mapsto>
             \<lparr>Href = ''https://api.sbgenomics.com/v2/files?limit=99999999999999999999'',
               Rel = ''next''\<rparr>]\<rparr>)"
  by (simp add: HasNextPage_def NextPage_def generateListOptions_def IsZero_def
      Link_Limit_def Link_Offset_def intQueryField_def Atoi_samples)

section \<open>Properties of the transfer engine\<close>

lemma spawn_workers_count: "spawn_workers i n = nat (n - i)"
proof (induction i n rule: spawn_workers.induct)
  case (1 i n)
  show ?case
  proof (cases "i < n")
    case True
    have "nat (n - i) = Suc (nat (n - (i + 1)))" using True by simp
    then show ?thesis using 1[OF True] True by (subst spawn_workers.simps) simp
  next
    case False
    then show ?thesis by (subst spawn_workers.simps) simp
  qed
qed


lemma chunks_5: "getNumberOfChunks 5 PartSize = Some 1"
proof -
  have "\<lceil>rat_of_int 5 / rat_of_int PartSize\<rceil> = 1"
    by (subst ceiling_div_int) (simp_all add: MB_def KB_def PartSize_def)
  moreover have "0 < PartSize" by (simp add: MB_def KB_def PartSize_def)
  ultimately show ?thesis
    using getNumberOfChunks_exact[of 5 PartSize] by simp
qed

lemma getNumberOfChunks_0: "getNumberOfChunks 0 PartSize = Some 0"
  by (simp add: getNumberOfChunks_def float64_of_int64_def float64_round_def PartSize_def
      MB_def KB_def)

lemma generateChunks_0: "generateChunks 0 fsize partSize = []"
  by (simp add: generateChunks_def generateChunks_loop.simps)

lemma getParts_5: "getParts 5 PartSize =
   Some [\<lparr>ID = 1, part.StartByte = 0, part.EndByte = 5, ETag = [], part.Error = None\<rparr>]"
  by (simp add: getParts_def getParts_loop.simps wrap64_def PartSize_def MB_def KB_def)

lemma ParseInt_samples:
  "ParseInt ''26214400'' = (26214400, None)" "ParseInt ''0'' = (0, None)"
  "ParseInt ''5'' = (5, None)"
  by (simp_all add: ParseInt_def ParseUint_def is_digit_def Let_def)

subsection \<open>The size of the worker pool\<close>






subsection \<open>A file that cannot be read\<close>

text \<open>
  C8 (as amended). When \<^verbatim>\<open>os.Stat\<close> fails on the local file, \<^verbatim>\<open>Upload\<close> returns that
  error at once: no request is made (no session-init, part or finalize request) and no
  worker is started.
\<close>

theorem Upload_Stat_error:
  "os_Stat w = Inl err \<Longrightarrow>
     Upload fuel w = \<lparr>returned = Returned (Some err), calls = [], workers = 0\<rparr>"
  by (simp add: Upload_def)

text \<open>An upload of a file that does not exist.\<close>

theorem Upload_Stat_error_witness:
  "os_Stat \<lparr>os_Stat = Inl (error.Error ''no such file or directory''),
      init_upload = DoOk PartSize,
      attempts = (\<lambda>k. \<lparr>negotiate = DoOk (), open_source = None, transfer = DoOk ''etag'',
                       acknowledge = DoOk ()\<rparr>),
      finalize = DoOk ()\<rparr> = Inl (error.Error ''no such file or directory'')
   \<and> Upload 10 \<lparr>os_Stat = Inl (error.Error ''no such file or directory''),
      init_upload = DoOk PartSize,
      attempts = (\<lambda>k. \<lparr>negotiate = DoOk (), open_source = None, transfer = DoOk ''etag'',
                       acknowledge = DoOk ()\<rparr>),
      finalize = DoOk ()\<rparr>
     = \<lparr>returned = Returned (Some (error.Error ''no such file or directory'')),
        calls = [], workers = 0\<rparr>"
  using Upload_Stat_error[of "\<lparr>os_Stat = Inl (error.Error ''no such file or directory''),
      init_upload = DoOk PartSize,
      attempts = (\<lambda>k. \<lparr>negotiate = DoOk (), open_source = None, transfer = DoOk ''etag'',
                       acknowledge = DoOk ()\<rparr>),
      finalize = DoOk ()\<rparr>" "error.Error ''no such file or directory''" 10]
  by simp

text \<open>
  C8 as stated fails for a file that can be stat'ed and cannot be read: \<^verbatim>\<open>os.Open\<close> is
  called by \<^verbatim>\<open>partUpload\<close> only, in a worker, after the requests of \<^verbatim>\<open>initUpload\<close> and
  \<^verbatim>\<open>partUploadInit\<close>. For a file of 5 bytes whose \<^verbatim>\<open>os.Open\<close> fails, the session-init,
  part and finalize requests are all made, and \<^verbatim>\<open>Upload\<close> returns no error.
\<close>

theorem Upload_unreadable_counterexample:
  "Upload 2 \<lparr>os_Stat = Inr 5, init_upload = DoOk PartSize,
      attempts = (\<lambda>k. \<lparr>negotiate = DoOk (),
                       open_source = Some (error.Error ''permission denied''),
                       transfer = DoOk ''etag'', acknowledge = DoOk ()\<rparr>),
      finalize = DoOk ()\<rparr>
   = \<lparr>returned = Returned None,
      calls = [NetUploadInit, NetPartUploadInit 1, FsOpenSource,
        PublishPart \<lparr>ID = 1, part.StartByte = 0, part.EndByte = 5, ETag = [],
          part.Error = Some (error.Error ''permission denied'')\<rparr>,
        NetPartReport 1 [],
        PublishPart \<lparr>ID = 1, part.StartByte = 0, part.EndByte = 5, ETag = [],
          part.Error = None\<rparr>,
        NetUploadComplete],
      workers = 1\<rparr>"
  by (simp add: Upload_def chunks_5 getParts_5 spawn_workers_count intMin_def Let_def
      numeral_2_eq_2 processPart_body_def partUpload_def partReportUploaded_def publish_def
      upload_monitor_def log_event_def set_Error_def set_ETag_def do_err_def store_of_def)

subsection \<open>The download of an empty file\<close>

text \<open>
  C6 (as amended). For a download whose remote resource has total size 0 (\<^verbatim>\<open>Info\<close>
  succeeds and \<^verbatim>\<open>fileSize\<close> returns 0), no range is planned, no ranged GET request is
  issued, \<^verbatim>\<open>Download\<close> returns no error, and the destination file is left as it was: it
  is not created. The destination is opened with \<^verbatim>\<open>O_CREATE\<close> by \<^verbatim>\<open>downloadChunk\<close>, as
  the first operation of every pass of its loop, that is once per range attempt.
\<close>

theorem Download_empty:
  assumes "do_err (download_info w) = None" "fileSize (size_probe w) = Some 0"
  shows "Download (Suc fuel) w =
     \<lparr>dreturned = Returned None, dcalls = [NetDownloadInfo, NetSizeProbe], dworkers = 16,
      planned = [], dest_after = dest_before w\<rparr>
   \<and> (\<forall>a c st. \<exists>rest. dtrace (downloadChunk_body a c st) = dtrace st @ FsOpenDest # rest)"
proof
  show "Download (Suc fuel) w =
     \<lparr>dreturned = Returned None, dcalls = [NetDownloadInfo, NetSizeProbe], dworkers = 16,
      planned = [], dest_after = dest_before w\<rparr>"
    using assms
    by (simp add: Download_def getNumberOfChunks_0 generateChunks_0 spawn_workers_count Let_def)
  show "\<forall>a c st. \<exists>rest. dtrace (downloadChunk_body a c st) = dtrace st @ FsOpenDest # rest"
    by (auto simp: downloadChunk_body_def publish_chunk_def download_monitor_def Let_def
        split: option.split)
qed

text \<open>The download of an empty file onto a destination that exists.\<close>

theorem Download_empty_witness:
  "do_err (download_info \<lparr>download_info = DoOk ''https://storage/file'',
       size_probe = Inr [''0''],
       fetches = (\<lambda>k. \<lparr>open_dest = None, range_get = DoOk ()\<rparr>),
       dest_before = True\<rparr>) = None
   \<and> fileSize (Inr [''0'']) = Some 0
   \<and> Download 1 \<lparr>download_info = DoOk ''https://storage/file'',
       size_probe = Inr [''0''],
       fetches = (\<lambda>k. \<lparr>open_dest = None, range_get = DoOk ()\<rparr>),
       dest_before = True\<rparr>
     = \<lparr>dreturned = Returned None, dcalls = [NetDownloadInfo, NetSizeProbe], dworkers = 16,
        planned = [], dest_after = True\<rparr>"
proof -
  let ?d = "\<lparr>download_info = DoOk ''https://storage/file'',
       size_probe = Inr [''0''],
       fetches = (\<lambda>k. \<lparr>open_dest = None, range_get = DoOk ()\<rparr>),
       dest_before = True\<rparr>"
  have a: "do_err (download_info ?d) = None" by (simp add: do_err_def)
  have f: "fileSize (Inr [''0'']) = Some 0" by (simp add: fileSize_def ParseInt_samples)
  then have b: "fileSize (size_probe ?d) = Some 0" by simp
  show ?thesis using Download_empty[OF a b, of 0] a f by simp
qed

text \<open>
  C6 as stated fails: when the destination does not exist before the download of an
  empty file, it does not exist after it.
\<close>

theorem Download_empty_not_created_counterexample:
  "dest_after (Download 1 \<lparr>download_info = DoOk ''https://storage/file'',
       size_probe = Inr [''0''],
       fetches = (\<lambda>k. \<lparr>open_dest = None, range_get = DoOk ()\<rparr>),
       dest_before = False\<rparr>) = False"
  by (simp add: Download_def do_err_def fileSize_def ParseInt_samples getNumberOfChunks_0
      generateChunks_0 spawn_workers_count Let_def)

subsection \<open>Publications of a worker\<close>

text \<open>
  C3. The claim asks for exactly one publication per dequeued range attempt, and that a
  failure of the part-URL negotiation leads neither to a further publication nor to
  the later sub-steps. In \<^verbatim>\<open>processPart\<close> no error branch ends the pass. For part 1 of a
  file of 5 bytes, when \<^verbatim>\<open>partUploadInit\<close> fails and the other operations succeed, the
  pass publishes the part with the error, then opens the file, uploads the part,
  reports it and publishes the part a second time. The first publication puts the part
  back on the queue, the second one counts it as done: the counter is 0 and the part is
  queued.
\<close>

theorem processPart_publishes_twice:
  "trace (fst (processPart_body
      \<lparr>negotiate = DoErr (error.Error ''timeout''), open_source = None,
       transfer = DoOk ''etag'', acknowledge = DoOk ()\<rparr> 0
      \<lparr>store = store_of [\<lparr>ID = 1, part.StartByte = 0, part.EndByte = 5, ETag = [],
                           part.Error = None\<rparr>],
       parts_q = [], wg = 1, trace = []\<rparr>))
   = [NetPartUploadInit 1,
      PublishPart \<lparr>ID = 1, part.StartByte = 0, part.EndByte = 5, ETag = [],
        part.Error = Some (error.Error ''timeout'')\<rparr>,
      FsOpenSource, NetPartUpload 1, NetPartReport 1 ''etag'',
      PublishPart \<lparr>ID = 1, part.StartByte = 0, part.EndByte = 5, ETag = ''etag'',
        part.Error = None\<rparr>]
   \<and> parts_q (fst (processPart_body
      \<lparr>negotiate = DoErr (error.Error ''timeout''), open_source = None,
       transfer = DoOk ''etag'', acknowledge = DoOk ()\<rparr> 0
      \<lparr>store = store_of [\<lparr>ID = 1, part.StartByte = 0, part.EndByte = 5, ETag = [],
                           part.Error = None\<rparr>],
       parts_q = [], wg = 1, trace = []\<rparr>)) = [0]
   \<and> wg (fst (processPart_body
      \<lparr>negotiate = DoErr (error.Error ''timeout''), open_source = None,
       transfer = DoOk ''etag'', acknowledge = DoOk ()\<rparr> 0
      \<lparr>store = store_of [\<lparr>ID = 1, part.StartByte = 0, part.EndByte = 5, ETag = [],
                           part.Error = None\<rparr>],
       parts_q = [], wg = 1, trace = []\<rparr>)) = 0"
  by (simp add: processPart_body_def partUpload_def partReportUploaded_def publish_def
      upload_monitor_def log_event_def set_Error_def set_ETag_def do_err_def store_of_def
      Let_def)

subsection \<open>The count of outstanding ranges\<close>

text \<open>
  C2. The claim asks that the outstanding-range count is decremented only for a result
  without error, and that a result with an error is re-submitted without decrementing.
  The monitoring goroutine of \<^verbatim>\<open>Upload\<close> does so. In \<^verbatim>\<open>Download\<close> the monitoring
  goroutine re-submits and never decrements, and \<^verbatim>\<open>downloadChunk\<close> calls \<^verbatim>\<open>wg.Done()\<close>
  after every ranged GET, failed or not. With three ranges outstanding and a GET that
  fails, the chunk is put back on the queue with its error cleared, same sequence
  number and bounds, and the count drops to two. For a file of 5 bytes whose GET fails,
  the count reaches zero with the failed attempt and \<^verbatim>\<open>Download\<close> returns no error while
  the range is queued again.
\<close>

theorem downloadChunk_counts_failed_attempt:
  "dwg (downloadChunk_body \<lparr>open_dest = None, range_get = DoErr (error.Error ''reset'')\<rparr>
      \<lparr>chunk.StartByte = 0, chunk.EndByte = 10485759, PartNumber = 0, chunk.Error = None\<rparr>
      \<lparr>chunks_q = [], dwg = 3, dtrace = [], dst_exists = False\<rparr>) = 2
   \<and> chunks_q (downloadChunk_body \<lparr>open_dest = None, range_get = DoErr (error.Error ''reset'')\<rparr>
      \<lparr>chunk.StartByte = 0, chunk.EndByte = 10485759, PartNumber = 0, chunk.Error = None\<rparr>
      \<lparr>chunks_q = [], dwg = 3, dtrace = [], dst_exists = False\<rparr>)
     = [\<lparr>chunk.StartByte = 0, chunk.EndByte = 10485759, PartNumber = 0, chunk.Error = None\<rparr>]
   \<and> dtrace (downloadChunk_body \<lparr>open_dest = None, range_get = DoErr (error.Error ''reset'')\<rparr>
      \<lparr>chunk.StartByte = 0, chunk.EndByte = 10485759, PartNumber = 0, chunk.Error = None\<rparr>
      \<lparr>chunks_q = [], dwg = 3, dtrace = [], dst_exists = False\<rparr>)
     = [FsOpenDest, NetRangeGet 0 10485759,
        PublishChunk \<lparr>chunk.StartByte = 0, chunk.EndByte = 10485759, PartNumber = 0,
          chunk.Error = Some (error.Error ''reset'')\<rparr>]
   \<and> Download 2 \<lparr>download_info = DoOk ''https://storage/file'', size_probe = Inr [''5''],
        fetches = (\<lambda>k. \<lparr>open_dest = None, range_get = DoErr (error.Error ''reset'')\<rparr>),
        dest_before = False\<rparr>
     = \<lparr>dreturned = Returned None,
        dcalls = [NetDownloadInfo, NetSizeProbe, FsOpenDest, NetRangeGet 0 10485759,
          PublishChunk \<lparr>chunk.StartByte = 0, chunk.EndByte = 10485759, PartNumber = 0,
            chunk.Error = Some (error.Error ''reset'')\<rparr>],
        dworkers = 16,
        planned = [\<lparr>chunk.StartByte = 0, chunk.EndByte = 10485759, PartNumber = 0,
            chunk.Error = None\<rparr>],
        dest_after = True\<rparr>"
proof -
  have g: "generateChunks 1 5 PartSize = [\<lparr>chunk.StartByte = 0, chunk.EndByte = 10485759,
      PartNumber = 0, chunk.Error = None\<rparr>]"
    by (simp add: generateChunks_def generateChunks_loop.simps PartSize_def MB_def KB_def
        wrap64_def)
  show ?thesis
    by (simp add: Download_def fileSize_def ParseInt_samples chunks_5 g spawn_workers_count
        numeral_2_eq_2 downloadChunk_body_def publish_chunk_def download_monitor_def
        do_err_def Let_def)
qed

end
